theory Spec2Isabelle
  imports Complex_Main "HOL-Library.Char_ord" "HOL-Library.List_Lexorder"
    "HOL-Library.Product_Lexorder" "HOL-Library.AList"
begin

section \<open>Python exceptions\<close>

text \<open>
  Every exception that the modelled code raises or catches is a value of this type.
  Messages are dropped, except for the remaining lockout time that
  \<open>recover_master_key\<close> formats into its \<open>PermissionError\<close> (0 where the code
  gives no time) and for the cause that \<open>VaultTransaction.commit\<close> wraps into its
  \<open>TransactionError\<close>. \<open>SecurityError\<close> is the exception class of \<open>crypto.py\<close>.
\<close>

datatype error =
    ValueError
  | KeyError
  | TypeError
  | AttributeError
  | RuntimeError
  | FileNotFoundError
  | PermissionError int
  | InvalidToken
  | BinasciiError
  | JSONDecodeError
  | UnsupportedOperation
  | TransactionError error
  | SecurityError

text \<open>
  \<open>except ValueError\<close> also catches the subclasses of \<open>ValueError\<close>:
  \<open>json.JSONDecodeError\<close>, \<open>binascii.Error\<close> and \<open>io.UnsupportedOperation\<close>
  (which derives from both \<open>OSError\<close> and \<open>ValueError\<close>).
  \<open>cryptography.fernet.InvalidToken\<close> derives from \<open>Exception\<close> only.
\<close>

fun is_ValueError :: "error \<Rightarrow> bool" where
  "is_ValueError ValueError = True"
| "is_ValueError JSONDecodeError = True"
| "is_ValueError BinasciiError = True"
| "is_ValueError UnsupportedOperation = True"
| "is_ValueError _ = False"

section \<open>Byte strings and the library primitives\<close>

text \<open>
  JSON values as \<open>json.loads\<close> returns them; a \<open>dict\<close> is an association list
  with unique keys in insertion order. The type parameter is the type of the characters of
  a string value.
\<close>

datatype 's json =
    JNull
  | JBool bool
  | JNum int
  | JStr "'s list"
  | JArr "'s json list"
  | JObj "(string \<times> 's json) list"

text \<open>
  A byte is either a literal byte or the \<open>i\<close>-th byte of the output of a library
  primitive (Fernet, PBKDF2, bcrypt, SHA-2, Base64, \<open>json.dumps\<close>) applied to given
  arguments. The primitives are thereby idealised: outputs of different primitives or of
  one primitive at different arguments never coincide, and have their real lengths (of a
  JSON text only that it is positive).
\<close>

datatype sbyte =
    Lit char
  | Sym string "sbyte list list" nat
  | JsonB "sbyte json" nat

type_synonym bytes = "sbyte list"

definition encode :: "string \<Rightarrow> bytes" where
  "encode s = map Lit s"

definition sym :: "string \<Rightarrow> bytes list \<Rightarrow> nat \<Rightarrow> bytes" where
  "sym tag args n = map (Sym tag args) [0..<n]"

fun is_prefix :: "'a list \<Rightarrow> 'a list \<Rightarrow> bool" where
  "is_prefix [] ys = True"
| "is_prefix (x # xs) [] = False"
| "is_prefix (x # xs) (y # ys) = (x = y \<and> is_prefix xs ys)"

text \<open>Python's \<open>pat in data\<close> on \<open>bytes\<close> and \<open>str\<close>.\<close>

fun contains :: "'a list \<Rightarrow> 'a list \<Rightarrow> bool" where
  "contains pat [] = (pat = [])"
| "contains pat (y # ys) = (is_prefix pat (y # ys) \<or> contains pat ys)"

subsection \<open>Base64\<close>

definition b64encode :: "bytes \<Rightarrow> bytes" where
  "b64encode x = sym ''b64'' [x] (4 * ((length x + 2) div 3))"

definition b64decode :: "bytes \<Rightarrow> error + bytes" where
  "b64decode y =
     (case y of
        [] \<Rightarrow> Inr []
      | Sym tag [x] i # _ \<Rightarrow>
          if tag = ''b64'' \<and> y = b64encode x then Inr x else Inl BinasciiError
      | _ \<Rightarrow> Inl BinasciiError)"

subsection \<open>Fernet\<close>

text \<open>
  A Fernet token is the URL-safe Base64 text of version (1 byte), timestamp (8), IV (16),
  AES-CBC ciphertext with PKCS7 padding and HMAC (32). A key is the Base64 text of 32
  bytes, 44 characters; \<open>Fernet(key)\<close> raises \<open>ValueError\<close> on anything else.
  Decryption accepts exactly the complete tokens made under the same key.
\<close>

definition fernet_len :: "nat \<Rightarrow> nat" where
  "fernet_len n = 4 * ((57 + 16 * (n div 16 + 1) + 2) div 3)"

definition valid_key :: "bytes \<Rightarrow> bool" where
  "valid_key k = (length k = 44)"

definition fernet_token :: "bytes \<Rightarrow> bytes \<Rightarrow> bytes" where
  "fernet_token k p = sym ''fernet'' [k, p] (fernet_len (length p))"

definition fernet_encrypt :: "bytes \<Rightarrow> bytes \<Rightarrow> error + bytes" where
  "fernet_encrypt k p = (if valid_key k then Inr (fernet_token k p) else Inl ValueError)"

definition fernet_decrypt :: "bytes \<Rightarrow> bytes \<Rightarrow> error + bytes" where
  "fernet_decrypt k t =
     (if \<not> valid_key k then Inl ValueError
      else case t of
        Sym tag [k', p] i # _ \<Rightarrow>
          if tag = ''fernet'' \<and> k' = k \<and> t = fernet_token k p then Inr p
          else Inl InvalidToken
      | _ \<Rightarrow> Inl InvalidToken)"

subsection \<open>Hashes and key derivation\<close>

definition sha256 :: "bytes \<Rightarrow> bytes" where
  "sha256 x = sym ''sha256'' [x] 32"

definition sha256_hexdigest :: "bytes \<Rightarrow> bytes" where
  "sha256_hexdigest x = sym ''sha256hex'' [x] 64"

definition sha384 :: "bytes \<Rightarrow> bytes" where
  "sha384 x = sym ''sha384'' [x] 48"

text \<open>\<open>base64.urlsafe_b64encode(PBKDF2HMAC(algorithm, 32, salt, iterations).derive(secret))\<close>\<close>

definition pbkdf2_key :: "string \<Rightarrow> bytes \<Rightarrow> bytes \<Rightarrow> bytes" where
  "pbkdf2_key algorithm salt secret = sym (''pbkdf2-'' @ algorithm) [salt, secret] 44"

definition bcrypt_hashpw :: "bytes \<Rightarrow> bytes \<Rightarrow> bytes" where
  "bcrypt_hashpw pw salt = sym ''bcrypt'' [pw, salt] 60"

text \<open>\<open>bcrypt.checkpw\<close> raises \<open>ValueError\<close> (invalid salt) on a malformed hash.\<close>

definition bcrypt_checkpw :: "bytes \<Rightarrow> bytes \<Rightarrow> error + bool" where
  "bcrypt_checkpw pw h =
     (case h of
        Sym tag [pw', salt] i # _ \<Rightarrow>
          if tag = ''bcrypt'' \<and> h = bcrypt_hashpw pw' salt then Inr (pw' = pw)
          else Inl ValueError
      | _ \<Rightarrow> Inl ValueError)"

section \<open>Recovery lockout (\<open>auth.RecoveryProtection\<close>)\<close>

type_synonym user_id = bytes
type_synonym attempts_table = "user_id \<rightharpoonup> real list"

definition max_attempts :: nat where
  "max_attempts = 3"

definition lockout_time :: real where
  "lockout_time = 600"

text \<open>
  \<open>time.time()\<close> is the argument \<open>now\<close>. The history is cut to the last
  \<open>max_attempts\<close> entries once it is longer than \<open>max_attempts * 2\<close>.
\<close>

definition record_attempt :: "real \<Rightarrow> user_id \<Rightarrow> attempts_table \<Rightarrow> attempts_table" where
  "record_attempt now uid fa =
     (let xs = (case fa uid of None \<Rightarrow> [] | Some ys \<Rightarrow> ys) @ [now]
      in fa(uid \<mapsto>
           (if length xs > max_attempts * 2 then drop (length xs - max_attempts) xs else xs)))"

definition recent_attempts :: "real \<Rightarrow> real list \<Rightarrow> real list" where
  "recent_attempts now xs = filter (\<lambda>t. now - t < lockout_time) xs"

definition is_locked_out :: "real \<Rightarrow> user_id \<Rightarrow> attempts_table \<Rightarrow> bool" where
  "is_locked_out now uid fa =
     (case fa uid of
        None \<Rightarrow> False
      | Some attempts \<Rightarrow> length (recent_attempts now attempts) \<ge> max_attempts)"

text \<open>Python's \<open>int(x)\<close> on a float truncates towards zero.\<close>

definition py_int :: "real \<Rightarrow> int" where
  "py_int x = (if x \<ge> 0 then \<lfloor>x\<rfloor> else \<lceil>x\<rceil>)"

definition get_remaining_time :: "real \<Rightarrow> user_id \<Rightarrow> attempts_table \<Rightarrow> int" where
  "get_remaining_time now uid fa =
     (case fa uid of
        None \<Rightarrow> 0
      | Some attempts \<Rightarrow>
          if attempts = [] then 0
          else max 0 (py_int (lockout_time - (now - Min (set attempts)))))"

definition clear_attempts :: "user_id \<Rightarrow> attempts_table \<Rightarrow> attempts_table" where
  "clear_attempts uid fa = fa(uid := None)"

text \<open>
  The lockout state machine: its steps are the two mutators. \<open>history\<close> is the list of
  all attempts recorded for an identifier since its last clearing, whether still retained
  or not.
\<close>

datatype event = Attempt real user_id | Clear user_id

fun step :: "attempts_table \<Rightarrow> event \<Rightarrow> attempts_table" where
  "step fa (Attempt t u) = record_attempt t u fa"
| "step fa (Clear u) = clear_attempts u fa"

definition run :: "event list \<Rightarrow> attempts_table" where
  "run evs = foldl step Map.empty evs"

fun history_step :: "user_id \<Rightarrow> real list \<Rightarrow> event \<Rightarrow> real list" where
  "history_step uid h (Attempt t u) = (if u = uid then h @ [t] else h)"
| "history_step uid h (Clear u) = (if u = uid then [] else h)"

definition history :: "user_id \<Rightarrow> event list \<Rightarrow> real list" where
  "history uid evs = foldl (history_step uid) [] evs"

fun event_times :: "event list \<Rightarrow> real list" where
  "event_times [] = []"
| "event_times (Attempt t u # evs) = t # event_times evs"
| "event_times (Clear u # evs) = event_times evs"

definition retained :: "user_id \<Rightarrow> attempts_table \<Rightarrow> real list" where
  "retained uid fa = (case fa uid of None \<Rightarrow> [] | Some xs \<Rightarrow> xs)"

section \<open>Credentials (\<open>auth.SecureAuthManager\<close>)\<close>

text \<open>Sequencing of computations that may raise.\<close>

fun and_then :: "error + 'a \<Rightarrow> ('a \<Rightarrow> error + 'b) \<Rightarrow> error + 'b" where
  "and_then (Inl e) f = Inl e"
| "and_then (Inr x) f = f x"

text \<open>\<open>d[key]\<close> on a dictionary entry that may be missing.\<close>

fun item :: "'a option \<Rightarrow> error + 'a" where
  "item None = Inl KeyError"
| "item (Some v) = Inr v"

text \<open>
  The configuration dictionary, with every key the code reads or writes as an optional
  field. Its strings are kept as byte strings, since most of them are Base64 texts.
\<close>

record recovery_question =
  question :: string
  answer_hash :: bytes
  answer_salt :: bytes

record vault_config =
  master_password_hash :: "bytes option"
  encrypted_master_key :: "bytes option"
  encrypted_recovery_key :: "bytes option"
  encrypted_master_password_encoder :: "bytes option"
  encrypted_recovery_encoder :: "bytes option"
  created_at :: "bytes option"
  password_hint :: "bytes option"
  recovery_questions :: "recovery_question list option"
  security_version :: "bytes option"
  user_id :: "bytes option"
  last_password_change :: "bytes option"
  recovery_setup_date :: "bytes option"

definition empty_config :: vault_config where
  "empty_config = \<lparr>master_password_hash = None, encrypted_master_key = None,
     encrypted_recovery_key = None, encrypted_master_password_encoder = None,
     encrypted_recovery_encoder = None, created_at = None, password_hint = None,
     recovery_questions = None, security_version = None, user_id = None,
     last_password_change = None, recovery_setup_date = None\<rparr>"

text \<open>
  What the code draws from \<open>secrets\<close>, \<open>Fernet.generate_key\<close>,
  \<open>bcrypt.gensalt\<close> and the clock is an argument of the model: for the password path
  the new encoder key, the 32-byte salt of the key derivation and the bcrypt salt; for the
  recovery path the new encoder key, the 32-byte salt, and for the \<open>i\<close>-th question its
  16-byte answer salt and its bcrypt salt.
\<close>

record password_draws =
  password_encoder_key :: bytes
  password_salt :: bytes
  password_gensalt :: bytes

record recovery_draws =
  recovery_encoder_key :: bytes
  master_salt :: bytes
  answer_token_bytes :: "nat \<Rightarrow> bytes"
  answer_gensalt :: "nat \<Rightarrow> bytes"

subsection \<open>Password strength\<close>

definition is_upper :: "char \<Rightarrow> bool" where
  "is_upper c = (CHR ''A'' \<le> c \<and> c \<le> CHR ''Z'')"

definition is_lower :: "char \<Rightarrow> bool" where
  "is_lower c = (CHR ''a'' \<le> c \<and> c \<le> CHR ''z'')"

definition is_digit :: "char \<Rightarrow> bool" where
  "is_digit c = (CHR ''0'' \<le> c \<and> c \<le> CHR ''9'')"

definition is_special :: "char \<Rightarrow> bool" where
  "is_special c = (c \<in> set ''!@#$%^&*(),.?\":{}|<>'')"

text \<open>\<open>str.lower\<close>, on the ASCII letters.\<close>

definition lower_char :: "char \<Rightarrow> char" where
  "lower_char c = (if is_upper c then char_of (of_char c + (32::nat)) else c)"

definition lower :: "string \<Rightarrow> string" where
  "lower s = map lower_char s"

text \<open>The pattern \<open>(.)\1{3,}\<close>: a character other than a newline, four times in a row.\<close>

fun repeated4 :: "string \<Rightarrow> bool" where
  "repeated4 (a # b # c # d # s) =
     ((a \<noteq> CHR 0x0A \<and> a = b \<and> b = c \<and> c = d) \<or> repeated4 (b # c # d # s))"
| "repeated4 _ = False"

definition check_common_patterns :: "string \<Rightarrow> bool" where
  "check_common_patterns password =
     (let password_lower = lower password
      in \<not> (list_ex (\<lambda>pat. contains pat password_lower)
                [''12345678'', ''password'', ''qwerty'', ''admin'', ''welcome'']
             \<or> repeated4 password_lower
             \<or> list_ex (\<lambda>pat. contains pat password_lower)
                [''0123'', ''1234'', ''2345'', ''3456'', ''4567'', ''5678'', ''6789'',
                 ''7890'']))"

fun bit_length :: "nat \<Rightarrow> nat" where
  "bit_length n = (if n = 0 then 0 else Suc (bit_length (n div 2)))"

declare bit_length.simps [simp del]

text \<open>Ten times the value of \<open>_calculate_password_entropy\<close>.\<close>

definition password_entropy10 :: "string \<Rightarrow> nat" where
  "password_entropy10 password =
     (let char_sets = (if list_ex is_lower password then 26 else 0)
                    + (if list_ex is_upper password then 26 else 0)
                    + (if list_ex is_digit password then 10 else 0)
                    + (if list_ex (\<lambda>c. \<not> is_lower c \<and> \<not> is_upper c \<and> \<not> is_digit c)
                          password then 32 else (0::nat))
      in length password * (if char_sets > 0 then bit_length char_sets else 1))"

text \<open>
  \<open>re.match\<close> of \<open>^[A-Za-z0-9!@#$%^&*(),.?":{}|<>]+$\<close>, where \<open>$\<close> also matches
  before a final newline.
\<close>

definition latin_only :: "string \<Rightarrow> bool" where
  "latin_only password =
     (let ok = (\<lambda>s. s \<noteq> [] \<and>
                 list_all (\<lambda>c. is_upper c \<or> is_lower c \<or> is_digit c \<or> is_special c) s)
      in ok password \<or>
         (password \<noteq> [] \<and> last password = CHR 0x0A \<and> ok (butlast password)))"

definition validate_password_strength :: "string \<Rightarrow> bool" where
  "validate_password_strength password =
     (if length password < 12 then False
      else if password_entropy10 password < 35 then False
      else list_ex is_upper password \<and> list_ex is_lower password \<and>
           list_ex is_digit password \<and> list_ex is_special password \<and>
           latin_only password \<and> check_common_patterns password)"

subsection \<open>Key wrapping\<close>

definition derive_key_from_password :: "string \<Rightarrow> bytes \<Rightarrow> bytes" where
  "derive_key_from_password password salt = pbkdf2_key ''sha256'' salt (encode password)"

definition derive_strong_recovery_key :: "string \<Rightarrow> bytes \<Rightarrow> bytes" where
  "derive_strong_recovery_key answers_string salt =
     pbkdf2_key ''sha512'' salt (sha384 (encode answers_string))"

definition encrypt_with_password :: "bytes \<Rightarrow> string \<Rightarrow> bytes \<Rightarrow> error + bytes" where
  "encrypt_with_password data password salt =
     and_then (fernet_encrypt (derive_key_from_password password salt) data)
       (\<lambda>encrypted_data. Inr (salt @ encrypted_data))"

definition NO_RECOVERY_SETUP :: bytes where
  "NO_RECOVERY_SETUP = encode ''NO_RECOVERY_SETUP''"

definition encrypt_with_questions ::
  "bytes \<Rightarrow> (string \<times> string) list \<Rightarrow> bytes \<Rightarrow> error + bytes" where
  "encrypt_with_questions data questions salt =
     (if questions = [] then Inr (salt @ NO_RECOVERY_SETUP)
      else and_then
             (fernet_encrypt
                (derive_strong_recovery_key (concat (map snd questions)) salt) data)
             (\<lambda>encrypted_data. Inr (salt @ encrypted_data)))"

text \<open>The loop that salts and hashes each answer, from index \<open>i\<close> on.\<close>

fun hash_answers :: "recovery_draws \<Rightarrow> nat \<Rightarrow> (string \<times> string) list \<Rightarrow> recovery_question list"
  where
  "hash_answers d i [] = []"
| "hash_answers d i ((q, answer) # rest) =
     \<lparr>question = q,
      answer_hash = bcrypt_hashpw (encode answer @ answer_token_bytes d i) (answer_gensalt d i),
      answer_salt = b64encode (answer_token_bytes d i)\<rparr> # hash_answers d (Suc i) rest"

definition create_master_password ::
  "string \<Rightarrow> string \<Rightarrow> (string \<times> string) list \<Rightarrow> bytes \<Rightarrow> password_draws \<Rightarrow>
   recovery_draws \<Rightarrow> string \<Rightarrow> string \<Rightarrow> error + (bytes \<times> vault_config)" where
  "create_master_password password hint questions master_key pd rd uid timestamp =
     (if \<not> validate_password_strength password then Inl ValueError
      else
        and_then (fernet_encrypt (password_encoder_key pd) master_key)
          (\<lambda>enc_master_key.
        and_then (fernet_encrypt (recovery_encoder_key rd) master_key)
          (\<lambda>enc_recovery_key.
        and_then (encrypt_with_password (password_encoder_key pd) password (password_salt pd))
          (\<lambda>enc_password_encoder.
        and_then (encrypt_with_questions (recovery_encoder_key rd) questions
                    (master_salt rd))
          (\<lambda>enc_recovery_encoder.
             Inr (master_key,
               \<lparr>master_password_hash =
                  Some (bcrypt_hashpw (encode password) (password_gensalt pd)),
                encrypted_master_key = Some (b64encode enc_master_key),
                encrypted_recovery_key = Some (b64encode enc_recovery_key),
                encrypted_master_password_encoder = Some (b64encode enc_password_encoder),
                encrypted_recovery_encoder = Some (b64encode enc_recovery_encoder),
                created_at = Some (encode timestamp),
                password_hint = Some (encode hint),
                recovery_questions = Some (hash_answers rd 0 questions),
                security_version = Some (encode ''2.0''),
                user_id = Some (encode uid),
                last_password_change = None,
                recovery_setup_date = None\<rparr>))))))"

subsection \<open>Unlocking with the password\<close>

text \<open>
  \<open>verify_master_password\<close> raises \<open>RuntimeError\<close> on a first run and turns every
  other exception into \<open>False\<close>.
\<close>

definition verify_master_password :: "string \<Rightarrow> vault_config \<Rightarrow> error + bool" where
  "verify_master_password password cfg =
     (case master_password_hash cfg of
        None \<Rightarrow> Inl RuntimeError
      | Some stored_hash \<Rightarrow>
          (case bcrypt_checkpw (encode password) stored_hash of
             Inl e \<Rightarrow> Inr False
           | Inr b \<Rightarrow> Inr b))"

definition unwrap_master_key :: "string \<Rightarrow> vault_config \<Rightarrow> error + bytes" where
  "unwrap_master_key password cfg =
     and_then (item (encrypted_master_password_encoder cfg)) (\<lambda>e64.
     and_then (b64decode e64) (\<lambda>encoder.
     and_then (fernet_decrypt (derive_key_from_password password (take 32 encoder))
                 (drop 32 encoder)) (\<lambda>master_password_encoder_key.
     and_then (item (encrypted_master_key cfg)) (\<lambda>k64.
     and_then (b64decode k64) (\<lambda>enc_master_key.
       fernet_decrypt master_password_encoder_key enc_master_key)))))"

definition get_master_key :: "string \<Rightarrow> vault_config \<Rightarrow> error + bytes" where
  "get_master_key password cfg =
     and_then (verify_master_password password cfg) (\<lambda>ok.
       if \<not> ok then Inl ValueError
       else (case unwrap_master_key password cfg of
               Inl e \<Rightarrow> Inl ValueError
             | Inr master_key \<Rightarrow> Inr master_key))"

definition change_master_password ::
  "string \<Rightarrow> string \<Rightarrow> string \<Rightarrow> password_draws \<Rightarrow> string \<Rightarrow> vault_config \<Rightarrow>
   error + (bytes \<times> vault_config)" where
  "change_master_password old_password new_password new_password_hint pd timestamp cfg =
     and_then (get_master_key old_password cfg) (\<lambda>master_key.
     and_then (fernet_encrypt (password_encoder_key pd) master_key) (\<lambda>new_enc_master_key.
     and_then (encrypt_with_password (password_encoder_key pd) new_password (password_salt pd))
       (\<lambda>enc_new_encoder.
          Inr (master_key,
            cfg\<lparr>master_password_hash :=
                   Some (bcrypt_hashpw (encode new_password) (password_gensalt pd)),
                 encrypted_master_key := Some (b64encode new_enc_master_key),
                 encrypted_master_password_encoder := Some (b64encode enc_new_encoder),
                 password_hint := Some (encode new_password_hint),
                 last_password_change := Some (encode timestamp)\<rparr>))))"

definition setup_recovery_questions ::
  "string \<Rightarrow> (string \<times> string) list \<Rightarrow> recovery_draws \<Rightarrow> string \<Rightarrow> vault_config \<Rightarrow>
   error + vault_config" where
  "setup_recovery_questions password questions rd timestamp cfg =
     and_then (get_master_key password cfg) (\<lambda>master_key.
     and_then (fernet_encrypt (recovery_encoder_key rd) master_key) (\<lambda>new_enc_recovery_key.
     and_then (encrypt_with_questions (recovery_encoder_key rd) questions
                 (master_salt rd))
       (\<lambda>enc_new_encoder.
          Inr (cfg\<lparr>encrypted_recovery_key := Some (b64encode new_enc_recovery_key),
                   encrypted_recovery_encoder := Some (b64encode enc_new_encoder),
                   recovery_questions := Some (hash_answers rd 0 questions),
                   recovery_setup_date := Some (encode timestamp)\<rparr>))))"

subsection \<open>Unlocking with the recovery answers\<close>

text \<open>
  The manager's state: the configuration, the lockout table and the wall clock. The time
  that a call spends computing is its argument \<open>d\<close>; \<open>time.sleep\<close> advances the
  clock by its argument.
\<close>

record auth_state =
  config :: vault_config
  failed_attempts :: attempts_table
  clock :: real

definition get_user_id :: "vault_config \<Rightarrow> user_id" where
  "get_user_id cfg = (case user_id cfg of None \<Rightarrow> encode ''default'' | Some u \<Rightarrow> u)"

text \<open>
  The body of the \<open>try\<close> block of \<open>recover_master_key\<close>. An exception comes with
  a flag: whether the block has recorded an attempt itself before raising.
\<close>

definition recover_try :: "vault_config \<Rightarrow> string list \<Rightarrow> (error \<times> bool) + bytes" where
  "recover_try cfg answers =
     (case and_then (item (encrypted_recovery_encoder cfg)) b64decode of
        Inl e \<Rightarrow> Inl (e, False)
      | Inr encoder \<Rightarrow>
          if contains NO_RECOVERY_SETUP encoder then Inl (ValueError, True)
          else
            (case and_then (fernet_decrypt
                              (derive_strong_recovery_key (concat answers) (take 32 encoder))
                              (drop 32 encoder)) (\<lambda>recovery_encoder_key.
                  and_then (item (encrypted_recovery_key cfg)) (\<lambda>k64.
                  and_then (b64decode k64) (\<lambda>enc_recovery_key.
                    fernet_decrypt recovery_encoder_key enc_recovery_key))) of
               Inl e \<Rightarrow> Inl (e, False)
             | Inr master_key \<Rightarrow> Inr master_key))"

definition recover_master_key ::
  "string list \<Rightarrow> real \<Rightarrow> auth_state \<Rightarrow> (error + bytes) \<times> auth_state" where
  "recover_master_key answers d st =
     (let uid = get_user_id (config st); start_time = clock st
      in if is_locked_out start_time uid (failed_attempts st)
         then (Inl (PermissionError (get_remaining_time start_time uid (failed_attempts st))),
               st)
         else
           (case recover_try (config st) answers of
              Inr master_key \<Rightarrow>
                (Inr master_key,
                 st\<lparr>failed_attempts := clear_attempts uid (failed_attempts st),
                    clock := start_time + d\<rparr>)
            | Inl (e, recorded) \<Rightarrow>
                (let now = start_time + d;
                     fa = (if recorded then record_attempt now uid (failed_attempts st)
                           else failed_attempts st);
                     elapsed_time = now - start_time;
                     min_delay = 1
                 in (Inl ValueError,
                     st\<lparr>failed_attempts := record_attempt now uid fa,
                        clock := (if elapsed_time < min_delay
                                  then now + (min_delay - elapsed_time) else now)\<rparr>))))"

text \<open>
  The loop of \<open>verify_recovery_answers\<close>; \<open>answers\<close> are (question, answer)
  pairs. Any exception in an iteration ends the loop with \<open>False\<close>.
\<close>

fun check_answers :: "(string \<times> string) list \<Rightarrow> recovery_question list \<Rightarrow> bool" where
  "check_answers [] stored = True"
| "check_answers ((q, answer) # rest) [] = False"
| "check_answers ((q, answer) # rest) (stored_data # stored) =
     (case b64decode (answer_salt stored_data) of
        Inl e \<Rightarrow> False
      | Inr salt \<Rightarrow>
          (case bcrypt_checkpw (encode (lower answer) @ salt) (answer_hash stored_data) of
             Inl e \<Rightarrow> False
           | Inr ok \<Rightarrow> ok \<and> check_answers rest stored))"

definition verify_recovery_answers ::
  "(string \<times> string) list \<Rightarrow> real \<Rightarrow> auth_state \<Rightarrow> bool \<times> auth_state" where
  "verify_recovery_answers answers d st =
     (let stored_questions =
            (case recovery_questions (config st) of None \<Rightarrow> [] | Some qs \<Rightarrow> qs);
          uid = get_user_id (config st); start_time = clock st
      in if length answers \<noteq> length stored_questions then (False, st)
         else if is_locked_out start_time uid (failed_attempts st) then (False, st)
         else
           (let result = check_answers answers stored_questions;
                now = start_time + d;
                elapsed_time = now - start_time;
                constant_delay = 1 / 2
            in (result,
                st\<lparr>failed_attempts := (if \<not> result
                                        then record_attempt now uid (failed_attempts st)
                                        else failed_attempts st),
                   clock := (if elapsed_time < constant_delay
                             then now + (constant_delay - elapsed_time) else now)\<rparr>)))"

text \<open>Time that passes between two calls.\<close>

definition wait :: "real \<Rightarrow> auth_state \<Rightarrow> auth_state" where
  "wait dt st = st\<lparr>clock := clock st + dt\<rparr>"

section \<open>Properties of the library primitives\<close>

lemma sym_Cons: "0 < n \<Longrightarrow> sym tag args n = Sym tag args 0 # map (Sym tag args) [1..<n]"
  by (simp add: sym_def upt_conv_Cons)

lemma length_sym [simp]: "length (sym tag args n) = n"
  by (simp add: sym_def)

lemma fernet_len_pos: "0 < fernet_len n"
  by (simp add: fernet_len_def)

lemma length_fernet_token [simp]: "length (fernet_token k p) = fernet_len (length p)"
  by (simp add: fernet_token_def)

lemma b64decode_b64encode [simp]: "b64decode (b64encode x) = Inr x"
proof (cases x)
  case Nil
  then show ?thesis by (simp add: b64decode_def b64encode_def sym_def)
next
  case (Cons a xs)
  then have "0 < 4 * ((length x + 2) div 3)" by simp
  then have "b64encode x = Sym ''b64'' [x] 0 # map (Sym ''b64'' [x]) [1..<4 * ((length x + 2) div 3)]"
    unfolding b64encode_def by (rule sym_Cons)
  then show ?thesis
    by (simp add: b64decode_def)
qed

lemma fernet_decrypt_token [simp]:
  "valid_key k \<Longrightarrow> fernet_decrypt k (fernet_token k p) = Inr p"
proof -
  have "fernet_token k p = Sym ''fernet'' [k, p] 0 # map (Sym ''fernet'' [k, p]) [1..<fernet_len (length p)]"
    unfolding fernet_token_def by (rule sym_Cons) (rule fernet_len_pos)
  then show "valid_key k \<Longrightarrow> ?thesis"
    by (simp add: fernet_decrypt_def)
qed

lemma fernet_decrypt_Inr:
  "fernet_decrypt k t = Inr p \<Longrightarrow> valid_key k \<and> t = fernet_token k p"
  by (auto simp: fernet_decrypt_def split: if_splits list.splits sbyte.splits)

lemma fernet_decrypt_other_key:
  "k' \<noteq> k \<Longrightarrow> valid_key k' \<Longrightarrow> fernet_decrypt k' (fernet_token k p) = Inl InvalidToken"
proof -
  have "fernet_token k p = Sym ''fernet'' [k, p] 0 # map (Sym ''fernet'' [k, p]) [1..<fernet_len (length p)]"
    unfolding fernet_token_def by (rule sym_Cons) (rule fernet_len_pos)
  then show "k' \<noteq> k \<Longrightarrow> valid_key k' \<Longrightarrow> ?thesis"
    by (simp add: fernet_decrypt_def)
qed

lemma bcrypt_checkpw_hashpw [simp]:
  "bcrypt_checkpw pw (bcrypt_hashpw pw' salt) = Inr (pw' = pw)"
proof -
  have "bcrypt_hashpw pw' salt = Sym ''bcrypt'' [pw', salt] 0 # map (Sym ''bcrypt'' [pw', salt]) [1..<60]"
    unfolding bcrypt_hashpw_def by (rule sym_Cons) simp
  then show ?thesis
    by (simp add: bcrypt_checkpw_def)
qed

lemma valid_key_pbkdf2 [simp]: "valid_key (pbkdf2_key a s x)"
  by (simp add: valid_key_def pbkdf2_key_def)

lemma pbkdf2_key_inj: "pbkdf2_key a s x = pbkdf2_key a' s' x' \<longleftrightarrow> a = a' \<and> s = s' \<and> x = x'"
  by (auto simp: pbkdf2_key_def sym_def upt_conv_Cons)

lemma encode_inj [simp]: "encode s = encode s' \<longleftrightarrow> s = s'"
  by (simp add: encode_def inj_map_eq_map inj_on_def)

section \<open>Properties of the lockout table\<close>

lemma retained_record_same:
  "retained uid (record_attempt t uid fa) =
     (let xs = retained uid fa @ [t]
      in if length xs > max_attempts * 2 then drop (length xs - max_attempts) xs else xs)"
  by (simp add: retained_def record_attempt_def Let_def)

lemma retained_record_other:
  "u \<noteq> uid \<Longrightarrow> retained uid (record_attempt t u fa) = retained uid fa"
  by (simp add: retained_def record_attempt_def Let_def)

lemma retained_clear_same: "retained uid (clear_attempts uid fa) = []"
  by (simp add: retained_def clear_attempts_def)

lemma retained_clear_other:
  "u \<noteq> uid \<Longrightarrow> retained uid (clear_attempts u fa) = retained uid fa"
  by (simp add: retained_def clear_attempts_def)

lemma run_snoc: "run (evs @ [e]) = step (run evs) e"
  by (simp add: run_def)

lemma history_snoc: "history uid (evs @ [e]) = history_step uid (history uid evs) e"
  by (simp add: history_def)

lemma retained_suffix_of_history:
  "\<exists>pre. history uid evs = pre @ retained uid (run evs) \<and>
         (pre = [] \<or> max_attempts \<le> length (retained uid (run evs))) \<and>
         length (retained uid (run evs)) \<le> max_attempts * 2"
proof (induction evs rule: rev_induct)
  case Nil
  show ?case by (simp add: history_def run_def retained_def)
next
  case (snoc e evs)
  then obtain pre where h: "history uid evs = pre @ retained uid (run evs)"
    and p: "pre = [] \<or> max_attempts \<le> length (retained uid (run evs))"
    and l: "length (retained uid (run evs)) \<le> max_attempts * 2"
    by blast
  show ?case
  proof (cases e)
    case (Clear u)
    then show ?thesis using h p l
      by (cases "u = uid")
         (auto simp: run_snoc history_snoc retained_clear_same retained_clear_other)
  next
    case (Attempt t u)
    show ?thesis
    proof (cases "u = uid")
      case False
      then show ?thesis using h p l Attempt
        by (auto simp: run_snoc history_snoc retained_record_other)
    next
      case True
      let ?r = "retained uid (run evs)"
      let ?xs = "?r @ [t]"
      show ?thesis
      proof (cases "length ?xs > max_attempts * 2")
        case False
        then have r': "retained uid (run (evs @ [e])) = ?xs"
          using True Attempt by (simp add: run_snoc retained_record_same Let_def)
        have "history uid (evs @ [e]) = pre @ ?xs"
          using True Attempt h by (simp add: history_snoc)
        then show ?thesis using r' p False by (auto simp: max_attempts_def)
      next
        case long: True
        then have r': "retained uid (run (evs @ [e])) = drop (length ?xs - max_attempts) ?xs"
          using True Attempt by (simp add: run_snoc retained_record_same Let_def)
        have "history uid (evs @ [e]) = pre @ ?xs"
          using True Attempt h by (simp add: history_snoc)
        then have "history uid (evs @ [e]) = (pre @ take (length ?xs - max_attempts) ?xs) @
                 drop (length ?xs - max_attempts) ?xs"
          by (simp only: append_assoc append_take_drop_id)
        moreover have "length (drop (length ?xs - max_attempts) ?xs) = max_attempts"
          using long by (simp add: max_attempts_def)
        ultimately show ?thesis unfolding r' by (metis le_refl mult_2_right le_add1)
      qed
    qed
  qed
qed

lemma is_locked_out_retained:
  "is_locked_out now uid fa \<longleftrightarrow> max_attempts \<le> length (recent_attempts now (retained uid fa))"
  by (simp add: is_locked_out_def retained_def recent_attempts_def max_attempts_def
           split: option.splits)

lemma recent_attempts_append:
  "recent_attempts now (xs @ ys) = recent_attempts now xs @ recent_attempts now ys"
  by (simp add: recent_attempts_def)

lemma recent_suffix_count:
  assumes srt: "sorted (pre @ r)"
    and big: "pre = [] \<or> max_attempts \<le> length r"
  shows "max_attempts \<le> length (recent_attempts now r) \<longleftrightarrow>
         max_attempts \<le> length (recent_attempts now (pre @ r))"
proof (cases "\<forall>t \<in> set r. now - t < lockout_time")
  case True
  then have "recent_attempts now r = r"
    by (simp add: recent_attempts_def)
  then show ?thesis using big
    by (cases "pre = []") (auto simp: recent_attempts_append)
next
  case False
  then obtain x where x: "x \<in> set r" "\<not> now - x < lockout_time" by blast
  have "\<forall>t \<in> set pre. t \<le> x" using srt x(1) by (auto simp: sorted_append)
  then have "\<forall>t \<in> set pre. \<not> now - t < lockout_time" using x(2) by fastforce
  then have "recent_attempts now pre = []"
    by (simp add: recent_attempts_def)
  then show ?thesis by (simp add: recent_attempts_append)
qed

lemma event_times_snoc:
  "event_times (evs @ [e]) = event_times evs @ (case e of Attempt t u \<Rightarrow> [t] | Clear u \<Rightarrow> [])"
  by (induction evs rule: event_times.induct) (auto split: event.splits)

lemma set_history_subset: "set (history uid evs) \<subseteq> set (event_times evs)"
proof (induction evs rule: rev_induct)
  case Nil
  show ?case by (simp add: history_def)
next
  case (snoc e evs)
  then show ?case
    by (cases e) (auto simp: history_snoc event_times_snoc)
qed

lemma sorted_history: "sorted (event_times evs) \<Longrightarrow> sorted (history uid evs)"
proof (induction evs rule: rev_induct)
  case Nil
  show ?case by (simp add: history_def)
next
  case (snoc e evs)
  show ?case
  proof (cases e)
    case (Clear u)
    then show ?thesis using snoc by (simp add: history_snoc event_times_snoc)
  next
    case (Attempt t u)
    then have s: "sorted (event_times evs)" and le: "\<forall>x \<in> set (event_times evs). x \<le> t"
      using snoc.prems by (auto simp: event_times_snoc sorted_append)
    then show ?thesis using snoc.IH set_history_subset [of uid evs] Attempt
      by (auto simp: history_snoc sorted_append)
  qed
qed

lemma locked_iff_history:
  assumes "sorted (event_times evs)"
  shows "is_locked_out now uid (run evs) \<longleftrightarrow>
         max_attempts \<le> length (recent_attempts now (history uid evs))"
proof -
  obtain pre where h: "history uid evs = pre @ retained uid (run evs)"
    and p: "pre = [] \<or> max_attempts \<le> length (retained uid (run evs))"
    using retained_suffix_of_history [of uid evs] by blast
  have "sorted (pre @ retained uid (run evs))"
    using sorted_history [OF assms, of uid] h by simp
  from recent_suffix_count [OF this p, of now] show ?thesis
    by (simp add: is_locked_out_retained h)
qed

lemma retained_bound: "length (retained uid (run evs)) \<le> max_attempts * 2"
  using retained_suffix_of_history [of uid evs] by blast

lemma recover_success_clears:
  "recover_master_key answers d st = (Inr master_key, st') \<Longrightarrow>
   failed_attempts st' = clear_attempts (get_user_id (config st)) (failed_attempts st)"
  by (auto simp: recover_master_key_def Let_def split: if_splits sum.splits prod.splits)

section \<open>Properties of the recovery path\<close>

fun is_Lit :: "sbyte \<Rightarrow> bool" where
  "is_Lit (Lit c) = True"
| "is_Lit _ = False"

lemma is_prefix_append_symbolic:
  "is_prefix pat (xs @ ys) \<Longrightarrow> list_all is_Lit pat \<Longrightarrow> list_all (\<lambda>b. \<not> is_Lit b) ys \<Longrightarrow>
   is_prefix pat xs"
proof (induction pat xs rule: is_prefix.induct)
  case (1 ys)
  then show ?case by simp
next
  case (2 x xs)
  then show ?case by (cases ys) auto
next
  case (3 x xs y ys)
  then show ?case by simp
qed

lemma contains_append_symbolic:
  "contains pat (xs @ ys) \<Longrightarrow> pat \<noteq> [] \<Longrightarrow> list_all is_Lit pat \<Longrightarrow>
   list_all (\<lambda>b. \<not> is_Lit b) ys \<Longrightarrow> contains pat xs"
proof (induction xs)
  case Nil
  have "\<not> contains pat ys" using Nil(2-4)
  proof (induction ys)
    case Nil
    then show ?case by simp
  next
    case (Cons y ys)
    then show ?case by (cases pat) auto
  qed
  with Nil show ?case by simp
next
  case (Cons x xs)
  then show ?case
    using is_prefix_append_symbolic [of pat "x # xs" ys] by auto
qed

lemma list_all_not_Lit_sym [simp]: "list_all (\<lambda>b. \<not> is_Lit b) (sym tag args n)"
  by (simp add: sym_def list_all_iff)

lemma NO_RECOVERY_SETUP_Lit: "list_all is_Lit NO_RECOVERY_SETUP" "NO_RECOVERY_SETUP \<noteq> []"
  by (simp_all add: NO_RECOVERY_SETUP_def encode_def)

lemma no_marker_in_wrapped:
  "\<not> contains NO_RECOVERY_SETUP salt \<Longrightarrow> \<not> contains NO_RECOVERY_SETUP (salt @ fernet_token k p)"
  using contains_append_symbolic [of NO_RECOVERY_SETUP salt "fernet_token k p"]
  by (auto simp: NO_RECOVERY_SETUP_Lit fernet_token_def)

lemma contains_self_suffix: "contains pat (xs @ pat)"
proof (induction xs)
  case Nil
  have "is_prefix pat pat" by (induction pat) auto
  then show ?case by (cases pat) auto
next
  case (Cons x xs)
  then show ?case by simp
qed

lemma valid_key_derive [simp]:
  "valid_key (derive_key_from_password pw s)" "valid_key (derive_strong_recovery_key a s)"
  by (simp_all add: derive_key_from_password_def derive_strong_recovery_key_def)

text \<open>The recovery artifacts that both set-up operations write.\<close>

lemma encrypt_with_questions_Inr:
  "encrypt_with_questions data qs salt = Inr blob \<Longrightarrow> qs \<noteq> [] \<Longrightarrow>
   blob = salt @ fernet_token (derive_strong_recovery_key (concat (map snd qs)) salt) data"
  by (auto simp: encrypt_with_questions_def fernet_encrypt_def split: if_splits)

lemma encrypt_with_questions_empty:
  "encrypt_with_questions data [] salt = Inr (salt @ NO_RECOVERY_SETUP)"
  by (simp add: encrypt_with_questions_def)

lemma recover_try_wrapped:
  assumes "encrypted_recovery_encoder cfg =
             Some (b64encode (salt @ fernet_token (derive_strong_recovery_key (concat answers) salt) rek))"
    and "encrypted_recovery_key cfg = Some (b64encode (fernet_token rek mk))"
    and "valid_key rek" and "length salt = 32" and "\<not> contains NO_RECOVERY_SETUP salt"
  shows "recover_try cfg answers = Inr mk"
  using assms by (simp add: recover_try_def no_marker_in_wrapped)

lemma fernet_encrypt_Inr: "fernet_encrypt k p = Inr t \<longleftrightarrow> valid_key k \<and> t = fernet_token k p"
  by (auto simp: fernet_encrypt_def)

lemma setup_recovery_questions_artifacts:
  assumes "setup_recovery_questions pw qs rd ts cfg0 = Inr cfg" and "qs \<noteq> []"
  shows "\<exists>mk. get_master_key pw cfg0 = Inr mk \<and> valid_key (recovery_encoder_key rd) \<and>
     encrypted_recovery_encoder cfg = Some (b64encode (master_salt rd @ fernet_token
        (derive_strong_recovery_key (concat (map snd qs)) (master_salt rd)) (recovery_encoder_key rd))) \<and>
     encrypted_recovery_key cfg = Some (b64encode (fernet_token (recovery_encoder_key rd) mk))"
proof (cases "get_master_key pw cfg0")
  case (Inl e)
  then show ?thesis using assms by (simp add: setup_recovery_questions_def)
next
  case (Inr mk)
  then show ?thesis using assms
    by (auto simp: setup_recovery_questions_def encrypt_with_questions_def fernet_encrypt_def
             split: if_splits)
qed

lemma create_master_password_artifacts:
  assumes "create_master_password pw hint qs mk pd rd uid ts = Inr (mk', cfg)" and "qs \<noteq> []"
  shows "mk' = mk \<and> valid_key (recovery_encoder_key rd) \<and>
     encrypted_recovery_encoder cfg = Some (b64encode (master_salt rd @ fernet_token
        (derive_strong_recovery_key (concat (map snd qs)) (master_salt rd)) (recovery_encoder_key rd))) \<and>
     encrypted_recovery_key cfg = Some (b64encode (fernet_token (recovery_encoder_key rd) mk))"
  using assms
  by (auto simp: create_master_password_def encrypt_with_questions_def encrypt_with_password_def
        fernet_encrypt_def split: if_splits)

section \<open>A concrete vault configuration\<close>

definition demo_key :: "char \<Rightarrow> bytes" where
  "demo_key c = replicate 44 (Lit c)"

definition demo_recovery_draws :: recovery_draws where
  "demo_recovery_draws =
     \<lparr>recovery_encoder_key = demo_key CHR ''R'', master_salt = replicate 32 (Lit CHR ''t''),
      answer_token_bytes = (\<lambda>i. replicate 16 (Lit CHR ''a'')),
      answer_gensalt = (\<lambda>i. replicate 29 (Lit CHR ''h''))\<rparr>"

definition demo_password_draws :: password_draws where
  "demo_password_draws =
     \<lparr>password_encoder_key = demo_key CHR ''P'', password_salt = replicate 32 (Lit CHR ''s''),
      password_gensalt = replicate 29 (Lit CHR ''g'')\<rparr>"

text \<open>
  The configuration that \<open>create_master_password\<close> writes for the password
  \<open>Str0ng!Passw0rd123\<close> and the given questions.
\<close>

definition demo_config :: "(string \<times> string) list \<Rightarrow> vault_config" where
  "demo_config questions =
     (case create_master_password ''Str0ng!Passw0rd123'' ''hint'' questions (demo_key CHR ''M'')
             demo_password_draws demo_recovery_draws ''u1'' ''2024-01-01T00:00:00'' of
        Inr (master_key, cfg) \<Rightarrow> cfg
      | Inl e \<Rightarrow> empty_config)"

lemma demo_password_valid: "validate_password_strength ''Str0ng!Passw0rd123''"
  by code_simp

lemma valid_demo_key [simp]: "valid_key (demo_key c)"
  by (simp add: valid_key_def demo_key_def)

lemma demo_create:
  "create_master_password ''Str0ng!Passw0rd123'' ''hint'' questions (demo_key CHR ''M'')
      demo_password_draws demo_recovery_draws ''u1'' ''2024-01-01T00:00:00''
   = Inr (demo_key CHR ''M'', demo_config questions)"
  by (simp add: demo_config_def create_master_password_def demo_password_valid
        encrypt_with_password_def encrypt_with_questions_def fernet_encrypt_def
        demo_password_draws_def demo_recovery_draws_def)

lemma no_marker_demo_salt: "\<not> contains NO_RECOVERY_SETUP (replicate 32 (Lit CHR ''t''))"
  by (simp add: NO_RECOVERY_SETUP_def encode_def eval_nat_numeral)

lemma demo_recover_try:
  "recover_try (demo_config [(''Pet?'', ''rex'')]) [''rex''] = Inr (demo_key CHR ''M'')"
proof -
  have "questions \<noteq> [] \<Longrightarrow> recover_try (demo_config questions) [concat (map snd questions)] = Inr (demo_key CHR ''M'')" for questions
    using create_master_password_artifacts [OF demo_create, of questions]
    by (intro recover_try_wrapped [where salt = "replicate 32 (Lit CHR ''t'')" and rek = "demo_key CHR ''R''"])
       (simp_all add: demo_recovery_draws_def no_marker_demo_salt)
  from this [of "[(''Pet?'', ''rex'')]"] show ?thesis by simp
qed

lemma and_then_Inr_iff: "and_then m f = Inr y \<longleftrightarrow> (\<exists>x. m = Inr x \<and> f x = Inr y)"
  by (cases m) auto

lemma create_master_password_user_id:
  "create_master_password pw hint qs mk pd rd uid ts = Inr (mk', cfg) \<Longrightarrow>
   get_user_id cfg = encode uid"
  by (auto simp: create_master_password_def get_user_id_def and_then_Inr_iff split: if_splits)

lemma demo_user_id [simp]: "get_user_id (demo_config questions) = encode ''u1''"
  using demo_create [of questions] by (rule create_master_password_user_id)

section \<open>Claims on the recovery lockout\<close>

definition demo_state :: "(string \<times> string) list \<Rightarrow> auth_state" where
  "demo_state questions =
     \<lparr>config = demo_config questions, failed_attempts = Map.empty, clock = 0\<rparr>"

lemma demo_recover_success:
  "recover_master_key [''rex''] d (demo_state [(''Pet?'', ''rex'')]) =
     (Inr (demo_key CHR ''M''),
      demo_state [(''Pet?'', ''rex'')]
        \<lparr>failed_attempts := clear_attempts (encode ''u1'') Map.empty, clock := d\<rparr>)"
  by (simp add: recover_master_key_def demo_state_def is_locked_out_def demo_recover_try)

section \<open>The newest entries of an attempt list\<close>

definition newest :: "nat \<Rightarrow> 'a list \<Rightarrow> 'a list" where
  "newest k xs = drop (length xs - k) xs"

lemma length_newest: "k \<le> length xs \<Longrightarrow> length (newest k xs) = k"
  by (simp add: newest_def)

lemma newest_snoc: "0 < m \<Longrightarrow> newest m (ys @ [t]) = newest (m - 1) ys @ [t]"
  by (cases m) (simp_all add: newest_def)

lemma newest_drop:
  "n \<le> length ys \<Longrightarrow> m \<le> length ys - n \<Longrightarrow> newest m (drop n ys) = newest m ys"
  by (simp add: newest_def)

lemma set_newest_mono: "j \<le> k \<Longrightarrow> set (newest j ys) \<subseteq> set (newest k ys)"
  unfolding newest_def by (rule set_drop_subset_set_drop) simp

lemma set_newest_subset: "set (newest k ys) \<subseteq> set ys"
  by (simp add: newest_def set_drop_subset)

text \<open>what one recorded attempt does to the retained list\<close>

lemma retained_record_cases:
  "retained uid (record_attempt t uid fa) = retained uid fa @ [t] \<or>
   (retained uid (record_attempt t uid fa) =
      drop (length (retained uid fa) - 2) (retained uid fa @ [t]) \<and>
    6 \<le> length (retained uid fa))"
  by (auto simp: retained_record_same Let_def max_attempts_def)


lemma record_newest:
  assumes k: "k \<le> length (retained uid fa)" "k \<le> 3"
    and lo: "\<forall>x \<in> set (newest k (retained uid fa)). lo \<le> x" "lo \<le> t"
  shows "min 3 (Suc k) \<le> length (retained uid (record_attempt t uid fa)) \<and>
         (\<forall>x \<in> set (newest (min 3 (Suc k)) (retained uid (record_attempt t uid fa))). lo \<le> x)"
proof -
  let ?r = "retained uid fa" and ?r' = "retained uid (record_attempt t uid fa)"
  let ?m = "min 3 (Suc k)"
  have m: "0 < ?m" "?m - 1 \<le> k" by auto
  have base: "\<forall>x \<in> set (newest ?m (?r @ [t])). lo \<le> x"
    using lo set_newest_mono [of "min 2 k" k ?r] by (auto simp: newest_snoc)
  from retained_record_cases [of uid t fa] show ?thesis
  proof
    assume "?r' = ?r @ [t]"
    then show ?thesis using base k by auto
  next
    assume c: "?r' = drop (length ?r - 2) (?r @ [t]) \<and> 6 \<le> length ?r"
    then have len: "length ?r' = 3" by auto
    have "newest ?m ?r' = newest ?m (?r @ [t])"
      using c by (simp add: newest_snoc newest_drop)
    then show ?thesis using base len by auto
  qed
qed

lemma locked_if_newest_recent:
  assumes "3 \<le> length (retained uid fa)"
    and "\<forall>x \<in> set (newest 3 (retained uid fa)). now - x < lockout_time"
  shows "is_locked_out now uid fa"
proof -
  let ?r = "retained uid fa"
  have "?r = take (length ?r - 3) ?r @ newest 3 ?r" by (simp add: newest_def)
  then have "length (recent_attempts now ?r) =
      length (recent_attempts now (take (length ?r - 3) ?r)) +
      length (recent_attempts now (newest 3 ?r))"
    by (metis recent_attempts_append length_append)
  moreover have "recent_attempts now (newest 3 ?r) = newest 3 ?r"
    using assms(2) by (simp add: recent_attempts_def)
  ultimately show ?thesis
    using assms(1) by (simp add: is_locked_out_retained max_attempts_def length_newest)
qed

section \<open>Case analysis of a recovery call\<close>

definition fresh_since :: "nat \<Rightarrow> real \<Rightarrow> real list \<Rightarrow> bool" where
  "fresh_since k lo r = (k \<le> length r \<and> list_all (\<lambda>x. lo \<le> x) (newest k r))"

lemma fresh_since_0 [simp]: "fresh_since 0 lo r"
  by (simp add: fresh_since_def newest_def)

lemma fresh_since_mono: "fresh_since k lo r \<Longrightarrow> j \<le> k \<Longrightarrow> fresh_since j lo r"
  using set_newest_mono [of j k r] by (auto simp: fresh_since_def list_all_iff)

lemma fresh_since_record:
  assumes "fresh_since k lo (retained uid fa)" "k \<le> 3" "lo \<le> t"
  shows "fresh_since (min 3 (Suc k)) lo (retained uid (record_attempt t uid fa))"
  using record_newest [of k uid fa lo t] assms by (simp add: fresh_since_def list_all_iff)

lemma fresh_since_steps:
  assumes "lo \<le> t"
  shows "fresh_since 1 lo (retained uid (record_attempt t uid fa))"
    and "fresh_since 1 lo (retained uid fa) \<Longrightarrow>
         fresh_since 2 lo (retained uid (record_attempt t uid fa))"
    and "fresh_since 2 lo (retained uid fa) \<Longrightarrow>
         fresh_since 3 lo (retained uid (record_attempt t uid fa))"
    and "fresh_since 3 lo (retained uid fa) \<Longrightarrow>
         fresh_since 3 lo (retained uid (record_attempt t uid fa))"
  using fresh_since_record [of 0 lo uid fa t] fresh_since_record [of 1 lo uid fa t]
    fresh_since_record [of 2 lo uid fa t] fresh_since_record [of 3 lo uid fa t] assms
  by (simp_all add: numeral_2_eq_2 numeral_3_eq_3)

lemma fresh_since_locked:
  assumes "fresh_since 3 lo (retained uid fa)" "now - lo < lockout_time"
  shows "is_locked_out now uid fa"
proof (rule locked_if_newest_recent)
  show "3 \<le> length (retained uid fa)" using assms(1) by (simp add: fresh_since_def)
  show "\<forall>x\<in>set (newest 3 (retained uid fa)). now - x < lockout_time"
    using assms by (fastforce simp: fresh_since_def list_all_iff)
qed

lemma retained_record_other_table:
  "retained uid (record_attempt t uid fa) \<noteq> []"
  using retained_record_cases [of uid t fa] by auto

text \<open>The three ways in which recover_master_key returns\<close>

lemma recover_locked:
  "is_locked_out (clock st) (get_user_id (config st)) (failed_attempts st) \<Longrightarrow>
   recover_master_key answers d st =
     (Inl (PermissionError (get_remaining_time (clock st) (get_user_id (config st))
        (failed_attempts st))), st)"
  by (simp add: recover_master_key_def)

lemma recover_success:
  "\<not> is_locked_out (clock st) (get_user_id (config st)) (failed_attempts st) \<Longrightarrow>
   recover_try (config st) answers = Inr master_key \<Longrightarrow>
   recover_master_key answers d st =
     (Inr master_key,
      st\<lparr>failed_attempts := clear_attempts (get_user_id (config st)) (failed_attempts st),
         clock := clock st + d\<rparr>)"
  by (simp add: recover_master_key_def)

lemma recover_failure:
  "\<not> is_locked_out (clock st) (get_user_id (config st)) (failed_attempts st) \<Longrightarrow>
   recover_try (config st) answers = Inl (e, recorded) \<Longrightarrow>
   recover_master_key answers d st =
     (Inl ValueError,
      st\<lparr>failed_attempts :=
           record_attempt (clock st + d) (get_user_id (config st))
             (if recorded
              then record_attempt (clock st + d) (get_user_id (config st)) (failed_attempts st)
              else failed_attempts st),
         clock := clock st + max d 1\<rparr>)"
  by (simp add: recover_master_key_def Let_def max_def)

lemma recover_ValueError:
  assumes "recover_master_key answers d st = (Inl ValueError, st')"
  shows "\<exists>e recorded. \<not> is_locked_out (clock st) (get_user_id (config st)) (failed_attempts st) \<and>
           recover_try (config st) answers = Inl (e, recorded)"
  using assms
  by (auto simp: recover_master_key_def Let_def split: if_splits sum.splits prod.splits)

lemma recover_try_not_configured:
  assumes "encrypted_recovery_encoder cfg = Some e64" "b64decode e64 = Inr encoder"
    "contains NO_RECOVERY_SETUP encoder"
  shows "recover_try cfg answers = Inl (ValueError, True)"
  using assms by (simp add: recover_try_def)

lemma wait_simps [simp]:
  "config (wait w st) = config st" "failed_attempts (wait w st) = failed_attempts st"
  "clock (wait w st) = clock st + w"
  by (simp_all add: wait_def)

lemma sym_inj: "0 < n \<Longrightarrow> sym tag args n = sym tag' args' n \<longleftrightarrow> tag = tag' \<and> args = args'"
  by (auto simp: sym_def upt_conv_Cons)

lemma sha384_inj [simp]: "sha384 x = sha384 y \<longleftrightarrow> x = y"
  by (simp add: sha384_def sym_inj)

lemma derive_strong_recovery_key_inj [simp]:
  "derive_strong_recovery_key a s = derive_strong_recovery_key a' s' \<longleftrightarrow> a = a' \<and> s = s'"
  by (auto simp: derive_strong_recovery_key_def pbkdf2_key_inj)

lemma derive_key_from_password_inj [simp]:
  "derive_key_from_password p s = derive_key_from_password p' s' \<longleftrightarrow> p = p' \<and> s = s'"
  by (auto simp: derive_key_from_password_def pbkdf2_key_inj)

lemma recover_try_wrong_answers:
  assumes "encrypted_recovery_encoder cfg =
             Some (b64encode (salt @ fernet_token (derive_strong_recovery_key answers_string salt) rek))"
    and "length salt = 32" and "\<not> contains NO_RECOVERY_SETUP salt"
    and "concat answers \<noteq> answers_string"
  shows "recover_try cfg answers = Inl (InvalidToken, False)"
  using assms by (simp add: recover_try_def no_marker_in_wrapped fernet_decrypt_other_key)

lemma demo_recovery_artifacts:
  "questions \<noteq> [] \<Longrightarrow>
   encrypted_recovery_encoder (demo_config questions) =
     Some (b64encode (replicate 32 (Lit CHR ''t'') @ fernet_token
        (derive_strong_recovery_key (concat (map snd questions)) (replicate 32 (Lit CHR ''t'')))
        (demo_key CHR ''R'')))"
  using create_master_password_artifacts [OF demo_create, of questions]
  by (simp add: demo_recovery_draws_def)

lemma demo_recover_try_wrong:
  "recover_try (demo_config [(''Pet?'', ''rex'')]) [''cat''] = Inl (InvalidToken, False)"
  by (rule recover_try_wrong_answers [OF demo_recovery_artifacts])
     (simp_all add: no_marker_demo_salt)

lemma create_master_password_not_configured:
  "create_master_password password hint [] master_key pd rd uid timestamp = Inr (mk, cfg) \<Longrightarrow>
   encrypted_recovery_encoder cfg = Some (b64encode (master_salt rd @ NO_RECOVERY_SETUP))"
  by (auto simp: create_master_password_def and_then_Inr_iff encrypt_with_questions_def
        split: if_splits)

lemma demo_not_configured:
  "encrypted_recovery_encoder (demo_config []) =
     Some (b64encode (replicate 32 (Lit CHR ''t'') @ NO_RECOVERY_SETUP))"
  using create_master_password_not_configured [OF demo_create [of "[]"]]
  by (simp add: demo_recovery_draws_def)

lemma demo_state_simps [simp]:
  "config (demo_state qs) = demo_config qs" "failed_attempts (demo_state qs) = Map.empty"
  "clock (demo_state qs) = 0"
  by (simp_all add: demo_state_def)

lemma not_locked_empty [simp]: "\<not> is_locked_out now uid Map.empty"
  by (simp add: is_locked_out_def)

lemma demo_unconfigured_call:
  "recover_master_key answers 0 (demo_state []) =
     (Inl ValueError,
      demo_state []\<lparr>failed_attempts := [encode ''u1'' \<mapsto> [0, 0]], clock := 1\<rparr>)"
proof -
  have "recover_try (config (demo_state [])) answers = Inl (ValueError, True)"
    by (rule recover_try_not_configured [OF _ b64decode_b64encode contains_self_suffix])
       (simp add: demo_not_configured)
  from recover_failure [OF _ this, of 0] show ?thesis
    by (simp add: record_attempt_def max_attempts_def)
qed

lemma demo_unconfigured_call2:
  "recover_master_key answers 0
     (wait 0 (demo_state []\<lparr>failed_attempts := [encode ''u1'' \<mapsto> [0, 0]], clock := 1\<rparr>)) =
     (Inl ValueError,
      demo_state []\<lparr>failed_attempts := [encode ''u1'' \<mapsto> [0, 0, 1, 1]], clock := 2\<rparr>)"
proof -
  let ?s = "wait 0 (demo_state []\<lparr>failed_attempts := [encode ''u1'' \<mapsto> [0, 0]], clock := 1\<rparr>)"
  have t: "recover_try (config ?s) answers = Inl (ValueError, True)"
    by (rule recover_try_not_configured [OF _ b64decode_b64encode contains_self_suffix])
       (simp add: demo_not_configured)
  have l: "\<not> is_locked_out (clock ?s) (get_user_id (config ?s)) (failed_attempts ?s)"
    by (simp add: is_locked_out_def recent_attempts_def max_attempts_def)
  from recover_failure [OF l t, of 0] show ?thesis
    by (simp add: record_attempt_def max_attempts_def wait_def)
qed

section \<open>Claims on the timing and the lockout of recovery\<close>

lemma recover_cases:
  obtains (locked) remaining where
      "is_locked_out (clock st) (get_user_id (config st)) (failed_attempts st)"
      "recover_master_key answers d st = (Inl (PermissionError remaining), st)"
  | (success) master_key where
      "\<not> is_locked_out (clock st) (get_user_id (config st)) (failed_attempts st)"
      "recover_try (config st) answers = Inr master_key"
      "recover_master_key answers d st =
         (Inr master_key,
          st\<lparr>failed_attempts := clear_attempts (get_user_id (config st)) (failed_attempts st),
             clock := clock st + d\<rparr>)"
  | (failure) e recorded where
      "\<not> is_locked_out (clock st) (get_user_id (config st)) (failed_attempts st)"
      "recover_try (config st) answers = Inl (e, recorded)"
      "recover_master_key answers d st =
         (Inl ValueError,
          st\<lparr>failed_attempts :=
               record_attempt (clock st + d) (get_user_id (config st))
                 (if recorded
                  then record_attempt (clock st + d) (get_user_id (config st)) (failed_attempts st)
                  else failed_attempts st),
             clock := clock st + max d 1\<rparr>)"
proof (cases "is_locked_out (clock st) (get_user_id (config st)) (failed_attempts st)")
  case True
  then show ?thesis using locked recover_locked by blast
next
  case False
  show ?thesis
  proof (cases "recover_try (config st) answers")
    case (Inl a)
    then obtain e recorded where "recover_try (config st) answers = Inl (e, recorded)"
      by (cases a) auto
    then show ?thesis using False failure recover_failure by blast
  next
    case (Inr master_key)
    then show ?thesis using False success recover_success by blast
  qed
qed

text \<open>
  Claim C8 (amended). A call of \<open>recover_master_key\<close> whose own computation takes \<open>d\<close> seconds
  returns in one of three ways: it fails with \<open>ValueError\<close> after \<open>max d 1\<close> seconds, so a failed
  attempt takes at least one second; it succeeds after exactly \<open>d\<close> seconds, with no floor; or
  it is rejected by the lockout with \<open>PermissionError\<close> at once.
\<close>

theorem recovery_delay_floor:
  assumes "recover_master_key answers d st = (r, st')"
  shows "(r = Inl ValueError \<and> clock st' = clock st + max d 1) \<or>
         ((\<exists>master_key. r = Inr master_key) \<and> clock st' = clock st + d) \<or>
         ((\<exists>remaining. r = Inl (PermissionError remaining)) \<and> clock st' = clock st)"
  using assms by (cases rule: recover_cases [of st answers d]) auto

lemma demo_recover_failure:
  "recover_master_key [''cat''] d (demo_state [(''Pet?'', ''rex'')]) =
     (Inl ValueError,
      demo_state [(''Pet?'', ''rex'')]
        \<lparr>failed_attempts := [encode ''u1'' \<mapsto> [d]], clock := max d 1\<rparr>)"
proof -
  let ?s = "demo_state [(''Pet?'', ''rex'')]"
  have l: "\<not> is_locked_out (clock ?s) (get_user_id (config ?s)) (failed_attempts ?s)"
    by simp
  have t: "recover_try (config ?s) [''cat''] = Inl (InvalidToken, False)"
    by (simp add: demo_recover_try_wrong)
  from recover_failure [OF l t, of d] show ?thesis
    by (simp add: record_attempt_def max_attempts_def)
qed

theorem recovery_delay_floor_witness:
  "fst (recover_master_key [''cat''] (1/5) (demo_state [(''Pet?'', ''rex'')])) = Inl ValueError \<and>
   clock (snd (recover_master_key [''cat''] (1/5) (demo_state [(''Pet?'', ''rex'')]))) = 1"
  using recovery_delay_floor [OF demo_recover_failure [of "1/5"]]
  by (simp add: demo_recover_failure)

theorem recovery_success_below_floor:
  "fst (recover_master_key [''rex''] (1/5) (demo_state [(''Pet?'', ''rex'')])) =
     Inr (demo_key CHR ''M'') \<and>
   clock (snd (recover_master_key [''rex''] (1/5) (demo_state [(''Pet?'', ''rex'')]))) -
     clock (demo_state [(''Pet?'', ''rex'')]) < 1"
  by (simp add: demo_recover_success)

lemma recover_try_configured:
  assumes "encrypted_recovery_encoder cfg =
             Some (b64encode (salt @ fernet_token (derive_strong_recovery_key answers_string salt) rek))"
    and "encrypted_recovery_key cfg = Some (b64encode (fernet_token rek mk))"
    and "valid_key rek" and "length salt = 32" and "\<not> contains NO_RECOVERY_SETUP salt"
  shows "recover_try cfg answers =
           (if concat answers = answers_string then Inr mk else Inl (InvalidToken, False))"
  using assms recover_try_wrapped [of cfg salt answers rek mk]
    recover_try_wrong_answers [of cfg salt answers_string rek answers]
  by auto

lemma recover_try_after_setup:
  assumes "create_master_password password hint questions master_key pd rd u timestamp =
             Inr (master_key, cfg) \<or>
           (get_master_key password cfg0 = Inr master_key \<and>
            setup_recovery_questions password questions rd timestamp cfg0 = Inr cfg)"
    and "questions \<noteq> []" "length (master_salt rd) = 32"
    and "\<not> contains NO_RECOVERY_SETUP (master_salt rd)"
  shows "recover_try cfg answers =
           (if concat answers = concat (map snd questions) then Inr master_key
            else Inl (InvalidToken, False))"
  using assms(1)
proof
  assume "create_master_password password hint questions master_key pd rd u timestamp =
             Inr (master_key, cfg)"
  from create_master_password_artifacts [OF this assms(2)] assms(3,4) show ?thesis
    by (intro recover_try_configured) auto
next
  assume a: "get_master_key password cfg0 = Inr master_key \<and>
            setup_recovery_questions password questions rd timestamp cfg0 = Inr cfg"
  from setup_recovery_questions_artifacts [of password questions rd timestamp cfg0 cfg] a assms(2,3,4)
  show ?thesis
    by (intro recover_try_configured) auto
qed





lemma remaining_time_bounds:
  assumes "list_all (\<lambda>x. x \<le> now) (retained uid fa)"
  shows "0 \<le> get_remaining_time now uid fa \<and> get_remaining_time now uid fa \<le> 600"
proof (cases "retained uid fa = []")
  case True
  then show ?thesis
    by (auto simp: get_remaining_time_def retained_def split: option.splits)
next
  case False
  then obtain xs where xs: "fa uid = Some xs" "xs \<noteq> []" "retained uid fa = xs"
    by (auto simp: retained_def split: option.splits)
  have "Min (set xs) \<in> set xs" using xs(2) by (intro Min_in) auto
  then have "Min (set xs) \<le> now" using assms xs(3) by (auto simp: list_all_iff)
  then have "py_int (lockout_time - (now - Min (set xs))) \<le> 600"
    by (auto simp: py_int_def lockout_time_def floor_le_iff ceiling_le_iff)
  then show ?thesis using xs by (simp add: get_remaining_time_def)
qed


definition demo_failed :: "real list \<Rightarrow> real \<Rightarrow> auth_state" where
  "demo_failed attempts now =
     demo_state [(''Pet?'', ''rex'')]\<lparr>failed_attempts := [encode ''u1'' \<mapsto> attempts], clock := now\<rparr>"

lemma demo_failed_simps [simp]:
  "config (demo_failed attempts now) = demo_config [(''Pet?'', ''rex'')]"
  "failed_attempts (demo_failed attempts now) = [encode ''u1'' \<mapsto> attempts]"
  "clock (demo_failed attempts now) = now"
  by (simp_all add: demo_failed_def)





section \<open>Claims on the password path\<close>

lemma change_master_password_result:
  assumes "change_master_password old_password new_password new_password_hint pd timestamp cfg =
             Inr (mk, cfg')"
  shows "get_master_key old_password cfg = Inr mk \<and> valid_key (password_encoder_key pd) \<and>
         cfg' = cfg\<lparr>master_password_hash :=
                       Some (bcrypt_hashpw (encode new_password) (password_gensalt pd)),
                     encrypted_master_key :=
                       Some (b64encode (fernet_token (password_encoder_key pd) mk)),
                     encrypted_master_password_encoder :=
                       Some (b64encode (password_salt pd @
                         fernet_token (derive_key_from_password new_password (password_salt pd))
                           (password_encoder_key pd))),
                     password_hint := Some (encode new_password_hint),
                     last_password_change := Some (encode timestamp)\<rparr>"
  using assms
  by (auto simp: change_master_password_def and_then_Inr_iff encrypt_with_password_def
        fernet_encrypt_Inr)

lemma get_master_key_wrapped:
  assumes "master_password_hash cfg = Some (bcrypt_hashpw (encode password) gensalt)"
    and "encrypted_master_key cfg = Some (b64encode (fernet_token pek mk))"
    and "encrypted_master_password_encoder cfg =
           Some (b64encode (salt @ fernet_token (derive_key_from_password password salt) pek))"
    and "valid_key pek" "length salt = 32"
  shows "get_master_key pw cfg = (if pw = password then Inr mk else Inl ValueError)"
  using assms
  by (simp add: get_master_key_def verify_master_password_def unwrap_master_key_def)

lemma create_master_password_password_artifacts:
  assumes "create_master_password password hint questions master_key pd rd uid timestamp =
             Inr (mk, cfg)"
  shows "valid_key (password_encoder_key pd) \<and>
     master_password_hash cfg = Some (bcrypt_hashpw (encode password) (password_gensalt pd)) \<and>
     encrypted_master_key cfg = Some (b64encode (fernet_token (password_encoder_key pd) mk)) \<and>
     encrypted_master_password_encoder cfg =
       Some (b64encode (password_salt pd @
         fernet_token (derive_key_from_password password (password_salt pd))
           (password_encoder_key pd)))"
  using assms
  by (auto simp: create_master_password_def and_then_Inr_iff encrypt_with_password_def
        fernet_encrypt_Inr split: if_splits)

lemma create_master_password_hint:
  "create_master_password password hint questions master_key pd rd uid timestamp =
     Inr (mk, cfg) \<Longrightarrow>
   password_hint cfg = Some (encode hint)"
  by (auto simp: create_master_password_def and_then_Inr_iff split: if_splits)

lemma change_master_password_hint:
  "change_master_password old_password new_password new_password_hint pd timestamp cfg =
     Inr (mk, cfg') \<Longrightarrow>
   password_hint cfg' = Some (encode new_password_hint)"
  by (auto simp: change_master_password_def and_then_Inr_iff)

lemma recover_try_cong:
  "encrypted_recovery_encoder cfg' = encrypted_recovery_encoder cfg \<Longrightarrow>
   encrypted_recovery_key cfg' = encrypted_recovery_key cfg \<Longrightarrow>
   recover_try cfg' answers = recover_try cfg answers"
  unfolding recover_try_def by (auto split: sum.splits if_splits)

text \<open>
  Claim C7 (amended). When \<open>change_master_password\<close> succeeds, it returns the master key
  that the old password unlocked before; the new password unlocks the same master key from
  the new configuration; the old password is refused there unless it equals the new one,
  in which case it still unlocks; and the recovery path (wrapped recovery key, wrapped
  recovery encoder, stored questions, setup date), the identifier, the creation date and the
  version are unchanged, so that recovery behaves as before. Besides the password hash,
  the wrapped master key and the wrapped encoder key with its salt, the call replaces the
  password hint and the date of the last change; no other entry of the configuration
  changes.
\<close>

theorem change_master_password_frame:
  assumes "change_master_password old_password new_password new_password_hint pd timestamp cfg =
             Inr (master_key, cfg')"
    and "length (password_salt pd) = 32"
  shows "get_master_key old_password cfg = Inr master_key \<and>
         get_master_key new_password cfg' = Inr master_key \<and>
         get_master_key old_password cfg' =
           (if old_password = new_password then Inr master_key else Inl ValueError) \<and>
         encrypted_recovery_key cfg' = encrypted_recovery_key cfg \<and>
         encrypted_recovery_encoder cfg' = encrypted_recovery_encoder cfg \<and>
         recovery_questions cfg' = recovery_questions cfg \<and>
         recovery_setup_date cfg' = recovery_setup_date cfg \<and>
         user_id cfg' = user_id cfg \<and> created_at cfg' = created_at cfg \<and>
         security_version cfg' = security_version cfg \<and>
         recover_try cfg' answers = recover_try cfg answers \<and>
         cfg' = cfg\<lparr>master_password_hash := master_password_hash cfg',
                     encrypted_master_key := encrypted_master_key cfg',
                     encrypted_master_password_encoder := encrypted_master_password_encoder cfg',
                     password_hint := Some (encode new_password_hint),
                     last_password_change := Some (encode timestamp)\<rparr>"
proof -
  note r = change_master_password_result [OF assms(1)]
  have k: "get_master_key pw cfg' = (if pw = new_password then Inr master_key else Inl ValueError)"
    for pw
    by (rule get_master_key_wrapped
          [where gensalt = "password_gensalt pd" and pek = "password_encoder_key pd"
             and salt = "password_salt pd"])
       (use r assms(2) in simp_all)
  have f: "encrypted_recovery_key cfg' = encrypted_recovery_key cfg"
    "encrypted_recovery_encoder cfg' = encrypted_recovery_encoder cfg"
    "recovery_questions cfg' = recovery_questions cfg"
    "recovery_setup_date cfg' = recovery_setup_date cfg"
    "user_id cfg' = user_id cfg" "created_at cfg' = created_at cfg"
    "security_version cfg' = security_version cfg"
    using r by simp_all
  have g: "cfg' = cfg\<lparr>master_password_hash := master_password_hash cfg',
                     encrypted_master_key := encrypted_master_key cfg',
                     encrypted_master_password_encoder := encrypted_master_password_encoder cfg',
                     password_hint := Some (encode new_password_hint),
                     last_password_change := Some (encode timestamp)\<rparr>"
    using r by simp
  have "get_master_key old_password cfg = Inr master_key" using r by simp
  then show ?thesis
    using k [of new_password] k [of old_password] f recover_try_cong [OF f(2) f(1)] g
    by simp
qed

definition demo_new_draws :: password_draws where
  "demo_new_draws =
     \<lparr>password_encoder_key = demo_key CHR ''N'', password_salt = replicate 32 (Lit CHR ''z''),
      password_gensalt = replicate 29 (Lit CHR ''y'')\<rparr>"

lemma demo_get_master_key:
  "get_master_key pw (demo_config questions) =
     (if pw = ''Str0ng!Passw0rd123'' then Inr (demo_key CHR ''M'') else Inl ValueError)"
  by (rule get_master_key_wrapped
        [where gensalt = "password_gensalt demo_password_draws"
           and pek = "password_encoder_key demo_password_draws"
           and salt = "password_salt demo_password_draws"])
     (use create_master_password_password_artifacts [OF demo_create, of questions]
      in \<open>simp_all add: demo_password_draws_def\<close>)

text \<open>The configuration after a change of the password of the concrete vault.\<close>

definition demo_changed :: "string \<Rightarrow> vault_config" where
  "demo_changed new_password =
     (case change_master_password ''Str0ng!Passw0rd123'' new_password ''new hint''
             demo_new_draws ''2024-02-01T00:00:00'' (demo_config [(''Pet?'', ''rex'')]) of
        Inr (master_key, cfg) \<Rightarrow> cfg
      | Inl e \<Rightarrow> empty_config)"

lemma demo_change:
  "change_master_password ''Str0ng!Passw0rd123'' new_password ''new hint''
     demo_new_draws ''2024-02-01T00:00:00'' (demo_config [(''Pet?'', ''rex'')]) =
   Inr (demo_key CHR ''M'', demo_changed new_password)"
  by (simp add: demo_changed_def change_master_password_def demo_get_master_key
        encrypt_with_password_def fernet_encrypt_def demo_new_draws_def)

theorem change_master_password_frame_witness:
  "change_master_password ''Str0ng!Passw0rd123'' ''N3w!Secret#Key97'' ''new hint''
     demo_new_draws ''2024-02-01T00:00:00'' (demo_config [(''Pet?'', ''rex'')]) =
     Inr (demo_key CHR ''M'', demo_changed ''N3w!Secret#Key97'') \<and>
   length (password_salt demo_new_draws) = 32 \<and>
   get_master_key ''Str0ng!Passw0rd123'' (demo_config [(''Pet?'', ''rex'')]) =
     Inr (demo_key CHR ''M'') \<and>
   get_master_key ''N3w!Secret#Key97'' (demo_changed ''N3w!Secret#Key97'') =
     Inr (demo_key CHR ''M'') \<and>
   get_master_key ''Str0ng!Passw0rd123'' (demo_changed ''N3w!Secret#Key97'') = Inl ValueError \<and>
   recover_try (demo_changed ''N3w!Secret#Key97'') [''rex''] = Inr (demo_key CHR ''M'')"
proof -
  have l: "length (password_salt demo_new_draws) = 32"
    by (simp add: demo_new_draws_def)
  from change_master_password_frame [OF demo_change l, of "''N3w!Secret#Key97''" "[''rex'']"]
  show ?thesis
    using l by (simp add: demo_change demo_recover_try)
qed

theorem change_to_same_password_keeps_old:
  "change_master_password ''Str0ng!Passw0rd123'' ''Str0ng!Passw0rd123'' ''new hint''
     demo_new_draws ''2024-02-01T00:00:00'' (demo_config [(''Pet?'', ''rex'')]) =
     Inr (demo_key CHR ''M'', demo_changed ''Str0ng!Passw0rd123'') \<and>
   get_master_key ''Str0ng!Passw0rd123'' (demo_changed ''Str0ng!Passw0rd123'') =
     Inr (demo_key CHR ''M'') \<and>
   password_hint (demo_config [(''Pet?'', ''rex'')]) = Some (encode ''hint'') \<and>
   password_hint (demo_changed ''Str0ng!Passw0rd123'') = Some (encode ''new hint'')"
proof -
  note r = change_master_password_result [OF demo_change [of "''Str0ng!Passw0rd123''"]]
  have h1: "password_hint (demo_config [(''Pet?'', ''rex'')]) = Some (encode ''hint'')"
    using demo_create by (rule create_master_password_hint)
  have h2: "password_hint (demo_changed ''Str0ng!Passw0rd123'') = Some (encode ''new hint'')"
    using demo_change by (rule change_master_password_hint)
  have "get_master_key ''Str0ng!Passw0rd123'' (demo_changed ''Str0ng!Passw0rd123'') =
      (if ''Str0ng!Passw0rd123'' = ''Str0ng!Passw0rd123'' then Inr (demo_key CHR ''M'')
       else Inl ValueError)"
    by (rule get_master_key_wrapped
          [where gensalt = "password_gensalt demo_new_draws"
             and pek = "password_encoder_key demo_new_draws"
             and salt = "password_salt demo_new_draws"])
       (use r in \<open>simp_all add: demo_new_draws_def\<close>)
  then show ?thesis using h1 h2 by (simp add: demo_change)
qed

section \<open>Claims on the verification of recovery answers\<close>

lemma check_answers_hashed:
  "check_answers questions (hash_answers rd i questions) =
     list_all (\<lambda>qa. lower (snd qa) = snd qa) questions"
  by (induction questions arbitrary: i) auto

lemma create_master_password_questions:
  "create_master_password password hint questions master_key pd rd uid timestamp =
     Inr (mk, cfg) \<Longrightarrow>
   recovery_questions cfg = Some (hash_answers rd 0 questions)"
  by (auto simp: create_master_password_def and_then_Inr_iff split: if_splits)

lemma demo_questions:
  "recovery_questions (demo_config questions) =
     Some (hash_answers demo_recovery_draws 0 questions)"
  using demo_create by (rule create_master_password_questions)

lemma length_hash_answers [simp]: "length (hash_answers rd i questions) = length questions"
  by (induction questions arbitrary: i) auto

lemma demo_recover_configured:
  "questions \<noteq> [] \<Longrightarrow>
   recover_master_key (map snd questions) d (demo_state questions) =
     (Inr (demo_key CHR ''M''),
      demo_state questions
        \<lparr>failed_attempts := clear_attempts (encode ''u1'') Map.empty, clock := d\<rparr>)"
proof -
  assume q: "questions \<noteq> []"
  let ?s = "demo_state questions"
  have l: "\<not> is_locked_out (clock ?s) (get_user_id (config ?s)) (failed_attempts ?s)"
    by simp
  have "recover_try (demo_config questions) (map snd questions) =
      (if concat (map snd questions) = concat (map snd questions) then Inr (demo_key CHR ''M'')
       else Inl (InvalidToken, False))"
    by (rule recover_try_after_setup [OF disjI1 [OF demo_create] q])
       (simp_all add: demo_recovery_draws_def no_marker_demo_salt)
  then have t: "recover_try (config ?s) (map snd questions) = Inr (demo_key CHR ''M'')"
    by simp
  from recover_success [OF l t, of d] show ?thesis by simp
qed

lemma lower_Rex: "lower ''Rex'' = ''rex''"
  by code_simp

text \<open>
  Claim C6. A vault is created with the recovery question \<open>Pet?\<close> and the answer
  \<open>Rex\<close>. With exactly this answer, and no lockout, \<open>verify_recovery_answers\<close> returns
  \<open>False\<close> and records a failed attempt, although \<open>recover_master_key\<close> accepts the same
  answer and returns the master key: the stored hash is computed from the answer as typed,
  the verification hashes the answer in lower case.
\<close>

theorem verify_recovery_answers_rejects_configured:
  "verify_recovery_answers [(''Pet?'', ''Rex'')] (1 / 5) (demo_state [(''Pet?'', ''Rex'')]) =
     (False,
      demo_state [(''Pet?'', ''Rex'')]
        \<lparr>failed_attempts := [encode ''u1'' \<mapsto> [1 / 5]], clock := 1 / 2\<rparr>) \<and>
   fst (recover_master_key [''Rex''] (1 / 5) (demo_state [(''Pet?'', ''Rex'')])) =
     Inr (demo_key CHR ''M'')"
proof -
  have "verify_recovery_answers [(''Pet?'', ''Rex'')] (1 / 5) (demo_state [(''Pet?'', ''Rex'')]) =
     (False,
      demo_state [(''Pet?'', ''Rex'')]
        \<lparr>failed_attempts := [encode ''u1'' \<mapsto> [1 / 5]], clock := 1 / 2\<rparr>)"
    by (simp add: verify_recovery_answers_def demo_questions Let_def check_answers_hashed
          record_attempt_def max_attempts_def lower_Rex)
  then show ?thesis
    using demo_recover_configured [of "[(''Pet?'', ''Rex'')]" "1 / 5"] by simp
qed

section \<open>The lockout state machine driven by recovery calls\<close>

text \<open>
  The mutators of the lockout table that a call of \<open>recover_master_key\<close> applies, in
  order: none when the call is rejected by the lockout, a clearing when it succeeds, one
  recorded attempt when it fails, two when it fails in the not-configured branch.
\<close>

definition recover_events :: "string list \<Rightarrow> real \<Rightarrow> auth_state \<Rightarrow> event list" where
  "recover_events answers d st =
     (let uid = get_user_id (config st)
      in if is_locked_out (clock st) uid (failed_attempts st) then []
         else case recover_try (config st) answers of
                Inr master_key \<Rightarrow> [Clear uid]
              | Inl (e, recorded) \<Rightarrow>
                  replicate (if recorded then 2 else 1) (Attempt (clock st + d) uid))"

lemma run_append: "run (evs @ evs') = foldl step (run evs) evs'"
  by (simp add: run_def)

lemma history_append: "history uid (evs @ evs') = foldl (history_step uid) (history uid evs) evs'"
  by (simp add: history_def)

lemma event_times_append: "event_times (evs @ evs') = event_times evs @ event_times evs'"
  by (induction evs rule: event_times.induct) auto

lemma recover_master_key_events:
  assumes "recover_master_key answers d st = (r, st')"
  shows "failed_attempts st' = foldl step (failed_attempts st) (recover_events answers d st)"
proof (cases rule: recover_cases [of st answers d])
  case (locked remaining)
  then show ?thesis using assms by (simp add: recover_events_def)
next
  case (success master_key)
  then show ?thesis using assms by (auto simp: recover_events_def)
next
  case (failure e recorded)
  then show ?thesis using assms
    by (auto simp: recover_events_def numeral_2_eq_2)
qed

lemma recover_events_result:
  assumes "recover_master_key answers d st = (r, st')"
  shows "case r of
           Inr master_key \<Rightarrow> recover_events answers d st = [Clear (get_user_id (config st))]
         | Inl e \<Rightarrow> (\<exists>k. recover_events answers d st =
                          replicate k (Attempt (clock st + d) (get_user_id (config st))))"
proof (cases rule: recover_cases [of st answers d])
  case (locked remaining)
  then show ?thesis using assms by (auto simp: recover_events_def intro: exI [of _ 0])
next
  case (success master_key)
  then show ?thesis using assms by (auto simp: recover_events_def)
next
  case (failure e recorded)
  then show ?thesis using assms by (auto simp: recover_events_def)
qed

lemma event_times_replicate:
  "event_times (replicate k (Attempt t u)) = replicate k t"
  by (induction k) auto

lemma history_replicate:
  "foldl (history_step uid) h (replicate k (Attempt t u)) =
     h @ (if u = uid then replicate k t else [])"
  by (induction k arbitrary: h) (auto simp: replicate_append_same)

text \<open>
  Claim C9. The lockout table is driven by \<open>record_attempt\<close> and \<open>clear_attempts\<close>; let
  it be the result of any sequence of these steps with non-decreasing timestamps. Then, for
  every identifier and every time \<open>now\<close>: the identifier is locked exactly if at least
  \<open>max_attempts\<close> = 3 of the attempts recorded for it since its last clearing lie within
  the 600 seconds before \<open>now\<close>; at most \<open>2 * max_attempts\<close> timestamps are retained for
  it; and a clearing empties its history. A call of \<open>recover_master_key\<close> on this table
  performs further steps of the same machine, so the table stays of this kind and the same
  holds after the call: a successful call is exactly the clearing of the identifier of the
  configuration, removing its whole history and no other; a failed or rejected call only
  appends the timestamps it records.
\<close>

theorem lockout_invariant:
  assumes srt: "sorted (event_times evs)"
    and tbl: "failed_attempts st = run evs"
    and tm: "list_all (\<lambda>t. t \<le> clock st + d) (event_times evs)"
    and call: "recover_master_key answers d st = (r, st')"
  shows "(is_locked_out now uid (run evs) \<longleftrightarrow>
            max_attempts \<le> length (recent_attempts now (history uid evs))) \<and>
         length (retained uid (run evs)) \<le> 2 * max_attempts \<and>
         run (evs @ [Clear uid]) uid = None \<and>
         history uid (evs @ [Clear uid]) = [] \<and>
         failed_attempts st' = run (evs @ recover_events answers d st) \<and>
         sorted (event_times (evs @ recover_events answers d st)) \<and>
         (is_locked_out now uid (failed_attempts st') \<longleftrightarrow>
            max_attempts \<le> length (recent_attempts now
              (history uid (evs @ recover_events answers d st)))) \<and>
         length (retained uid (failed_attempts st')) \<le> 2 * max_attempts \<and>
         (case r of
            Inr master_key \<Rightarrow>
              recover_events answers d st = [Clear (get_user_id (config st))] \<and>
              failed_attempts st' =
                clear_attempts (get_user_id (config st)) (failed_attempts st) \<and>
              failed_attempts st' (get_user_id (config st)) = None \<and>
              history (get_user_id (config st)) (evs @ recover_events answers d st) = []
          | Inl e \<Rightarrow>
              history uid (evs @ recover_events answers d st) =
                history uid evs @
                (if uid = get_user_id (config st)
                 then event_times (recover_events answers d st) else []))"
proof -
  let ?new = "recover_events answers d st"
  let ?u0 = "get_user_id (config st)"
  have run': "failed_attempts st' = run (evs @ ?new)"
    using recover_master_key_events [OF call] tbl by (simp add: run_append)
  note res = recover_events_result [OF call]
  have times: "\<exists>k. event_times ?new = replicate k (clock st + d)"
  proof (cases r)
    case (Inl e)
    then show ?thesis using res by (auto simp: event_times_replicate)
  next
    case (Inr mk)
    then show ?thesis using res by (auto intro: exI [of _ 0])
  qed
  have srt': "sorted (event_times (evs @ ?new))"
    using times srt tm
    by (auto simp: event_times_append sorted_append list_all_iff sorted_replicate)
  have last: "case r of
            Inr master_key \<Rightarrow>
              ?new = [Clear ?u0] \<and>
              failed_attempts st' = clear_attempts ?u0 (failed_attempts st) \<and>
              failed_attempts st' ?u0 = None \<and>
              history ?u0 (evs @ ?new) = []
          | Inl e \<Rightarrow>
              history uid (evs @ ?new) =
                history uid evs @ (if uid = ?u0 then event_times ?new else [])"
  proof (cases r)
    case (Inl e)
    then obtain k where "?new = replicate k (Attempt (clock st + d) ?u0)"
      using res by auto
    then show ?thesis using Inl
      by (simp add: history_append history_replicate event_times_replicate)
  next
    case (Inr mk)
    then have n: "?new = [Clear ?u0]" using res by simp
    have "failed_attempts st' = clear_attempts ?u0 (failed_attempts st)"
      using call Inr by (auto intro: recover_success_clears)
    then show ?thesis using Inr n
      by (simp add: history_snoc clear_attempts_def)
  qed
  show ?thesis
    using locked_iff_history [OF srt, of now uid] retained_bound [of uid evs]
      locked_iff_history [OF srt', of now uid] retained_bound [of uid "evs @ ?new"]
      run' srt' last
    by (simp add: run_snoc history_snoc clear_attempts_def mult.commute)
qed

text \<open>
  Seven failed attempts on the identifier of the concrete vault, the last three within
  three seconds, and one attempt on another identifier.
\<close>

definition demo_events :: "event list" where
  "demo_events =
     [Attempt 0 (encode ''u1''), Attempt 5 (encode ''u2''), Attempt 700 (encode ''u1''),
      Attempt 1400 (encode ''u1''), Attempt 2100 (encode ''u1''), Attempt 2800 (encode ''u1''),
      Attempt 2801 (encode ''u1''), Attempt 2802 (encode ''u1'')]"

lemma run_demo_events:
  "run demo_events = [encode ''u2'' \<mapsto> [5], encode ''u1'' \<mapsto> [2800, 2801, 2802]]"
  by (simp add: demo_events_def run_def record_attempt_def max_attempts_def fun_upd_twist)

lemma history_demo_events:
  "history (encode ''u1'') demo_events = [0, 700, 1400, 2100, 2800, 2801, 2802]"
  by (simp add: demo_events_def history_def)

theorem lockout_invariant_witness:
  "sorted (event_times demo_events) \<and>
   history (encode ''u1'') demo_events = [0, 700, 1400, 2100, 2800, 2801, 2802] \<and>
   retained (encode ''u1'') (run demo_events) = [2800, 2801, 2802] \<and>
   is_locked_out 2803 (encode ''u1'') (run demo_events) \<and>
   fst (recover_master_key [''rex''] 0
          (demo_state [(''Pet?'', ''rex'')]\<lparr>failed_attempts := run demo_events, clock := 3402\<rparr>)) =
     Inr (demo_key CHR ''M'') \<and>
   failed_attempts (snd (recover_master_key [''rex''] 0
          (demo_state [(''Pet?'', ''rex'')]\<lparr>failed_attempts := run demo_events, clock := 3402\<rparr>))) =
     [encode ''u2'' \<mapsto> [5]] \<and>
   \<not> is_locked_out 2803 (encode ''u1'')
     (failed_attempts (snd (recover_master_key [''rex''] 0
          (demo_state [(''Pet?'', ''rex'')]\<lparr>failed_attempts := run demo_events, clock := 3402\<rparr>))))"
proof -
  let ?st = "demo_state [(''Pet?'', ''rex'')]\<lparr>failed_attempts := run demo_events, clock := 3402\<rparr>"
  let ?c = "recover_master_key [''rex''] 0 ?st"
  have s: "sorted (event_times demo_events)" by (simp add: demo_events_def)
  have t: "failed_attempts ?st = run demo_events" by simp
  have m: "list_all (\<lambda>t. t \<le> clock ?st + 0) (event_times demo_events)"
    by (simp add: demo_events_def)
  have free: "\<not> is_locked_out (clock ?st) (get_user_id (config ?st)) (failed_attempts ?st)"
    by (simp add: run_demo_events is_locked_out_def recent_attempts_def lockout_time_def
          max_attempts_def)
  have tr: "recover_try (config ?st) [''rex''] = Inr (demo_key CHR ''M'')"
    by (simp add: demo_recover_try)
  have c: "?c = (Inr (demo_key CHR ''M''), snd ?c)"
    using recover_success [OF free tr, of 0] by simp
  have l: "max_attempts \<le> length (recent_attempts 2803 (history (encode ''u1'') demo_events))"
    by (simp add: history_demo_events recent_attempts_def lockout_time_def max_attempts_def)
  have u: "encode ''u2'' \<noteq> encode ''u1''" by simp
  note inv = lockout_invariant [OF s t m c, of 2803 "encode ''u1''"]
  have k1: "is_locked_out 2803 (encode ''u1'') (run demo_events)"
    using inv l by blast
  have "failed_attempts (snd ?c) =
      clear_attempts (get_user_id (config ?st)) (failed_attempts ?st)"
    using inv unfolding sum.case by blast
  then have k2: "failed_attempts (snd ?c) = [encode ''u2'' \<mapsto> [5]]"
    by (auto simp: run_demo_events clear_attempts_def fun_eq_iff)
  have k3: "\<not> is_locked_out 2803 (encode ''u1'') (failed_attempts (snd ?c))"
    unfolding k2 by (simp add: is_locked_out_def)
  have k4: "retained (encode ''u1'') (run demo_events) = [2800, 2801, 2802]"
    by (simp add: run_demo_events retained_def)
  have k5: "fst ?c = Inr (demo_key CHR ''M'')"
    using c by (metis fst_conv)
  show ?thesis
    using s history_demo_events k4 k1 k5 k2 k3 by blast
qed

section \<open>Claims on unconfigured recovery\<close>

text \<open>
  Claim C10 (amended). When the stored recovery blob carries the \<open>NO_RECOVERY_SETUP\<close>
  marker and the identifier is not locked, a call of \<open>recover_master_key\<close> fails with
  \<open>ValueError\<close> and records exactly two attempts with the same timestamp: one in the
  not-configured branch, one in the generic failure handler. After two such calls the
  identifier is locked at every instant that is less than \<open>lockout_time\<close> = 600 seconds
  after the timestamp of the first call. When no earlier attempt was retained for the
  identifier, the table then holds these four timestamps and the identifier is locked at
  exactly those instants: the lock ends 600 seconds after the first call, not 600 seconds
  after the second, and two calls 600 seconds or more apart do not lock at all.
\<close>

theorem recovery_not_configured_two_calls:
  assumes enc: "encrypted_recovery_encoder (config st) = Some e64" "b64decode e64 = Inr encoder"
      "contains NO_RECOVERY_SETUP encoder"
    and uid: "uid = get_user_id (config st)"
    and free1: "\<not> is_locked_out (clock st) uid (failed_attempts st)"
    and c1: "recover_master_key answers1 d1 st = (r1, st1)"
    and free2: "\<not> is_locked_out (clock st1 + w) uid (failed_attempts st1)"
    and c2: "recover_master_key answers2 d2 (wait w st1) = (r2, st2)"
    and nonneg: "0 \<le> d1" "0 \<le> w" "0 \<le> d2"
  shows "r1 = Inl ValueError \<and>
         failed_attempts st1 =
           record_attempt (clock st + d1) uid
             (record_attempt (clock st + d1) uid (failed_attempts st)) \<and>
         r2 = Inl ValueError \<and>
         failed_attempts st2 =
           record_attempt (clock st1 + w + d2) uid
             (record_attempt (clock st1 + w + d2) uid (failed_attempts st1)) \<and>
         (now - (clock st + d1) < lockout_time \<longrightarrow>
            is_locked_out now uid (failed_attempts st2)) \<and>
         (retained uid (failed_attempts st) = [] \<longrightarrow>
            retained uid (failed_attempts st2) =
              [clock st + d1, clock st + d1, clock st1 + w + d2, clock st1 + w + d2] \<and>
            (is_locked_out now uid (failed_attempts st2) \<longleftrightarrow>
               now - (clock st + d1) < lockout_time))"
proof -
  let ?t1 = "clock st + d1" and ?t2 = "clock st1 + w + d2"
  have try1: "recover_try (config st) answers1 = Inl (ValueError, True)"
    using enc by (rule recover_try_not_configured)
  have call1: "(r1, st1) = (Inl ValueError,
      st\<lparr>failed_attempts := record_attempt ?t1 uid (record_attempt ?t1 uid (failed_attempts st)),
         clock := clock st + max d1 1\<rparr>)"
    using recover_failure [OF free1 [unfolded uid] try1, of d1] c1 uid by simp
  then have st1: "config st1 = config st" "clock st1 = clock st + max d1 1"
    and fa1: "failed_attempts st1 =
      record_attempt ?t1 uid (record_attempt ?t1 uid (failed_attempts st))"
    and r1: "r1 = Inl ValueError"
    by auto
  have try2: "recover_try (config (wait w st1)) answers2 = Inl (ValueError, True)"
    using enc st1(1) by (simp add: recover_try_not_configured)
  have free2': "\<not> is_locked_out (clock (wait w st1)) (get_user_id (config (wait w st1)))
      (failed_attempts (wait w st1))"
    using free2 uid st1(1) by simp
  have call2: "(r2, st2) = (Inl ValueError,
      (wait w st1)\<lparr>failed_attempts :=
           record_attempt ?t2 uid (record_attempt ?t2 uid (failed_attempts st1)),
         clock := clock st1 + w + max d2 1\<rparr>)"
    using recover_failure [OF free2' try2, of d2] c2 uid st1(1) by simp
  then have fa2: "failed_attempts st2 =
      record_attempt ?t2 uid (record_attempt ?t2 uid (failed_attempts st1))"
    and r2: "r2 = Inl ValueError"
    by auto
  have le: "?t1 \<le> ?t2" using nonneg st1(2) by simp
  have "fresh_since 2 ?t1 (retained uid (failed_attempts st1))"
    unfolding fa1 by (intro fresh_since_steps) simp_all
  then have "fresh_since 3 ?t1 (retained uid (failed_attempts st2))"
    unfolding fa2 using le by (intro fresh_since_steps) simp_all
  then have locked: "now - ?t1 < lockout_time \<Longrightarrow> is_locked_out now uid (failed_attempts st2)"
    by (rule fresh_since_locked)
  have exact: "retained uid (failed_attempts st2) = [?t1, ?t1, ?t2, ?t2] \<and>
      (is_locked_out now uid (failed_attempts st2) \<longleftrightarrow> now - ?t1 < lockout_time)"
    if e: "retained uid (failed_attempts st) = []"
  proof -
    have r: "retained uid (failed_attempts st2) = [?t1, ?t1, ?t2, ?t2]"
      unfolding fa2 fa1 using e by (simp add: retained_record_same max_attempts_def)
    have "now - ?t2 \<le> now - ?t1" using le by simp
    then show ?thesis
      using r by (auto simp: is_locked_out_retained recent_attempts_def max_attempts_def)
  qed
  show ?thesis using r1 fa1 r2 fa2 locked exact by blast
qed

text \<open>The concrete vault without recovery questions, after failed calls.\<close>

definition demo_unconfigured :: "real list \<Rightarrow> real \<Rightarrow> auth_state" where
  "demo_unconfigured attempts now =
     demo_state []\<lparr>failed_attempts := [encode ''u1'' \<mapsto> attempts], clock := now\<rparr>"

lemma demo_unconfigured_simps [simp]:
  "config (demo_unconfigured attempts now) = demo_config []"
  "failed_attempts (demo_unconfigured attempts now) = [encode ''u1'' \<mapsto> attempts]"
  "clock (demo_unconfigured attempts now) = now"
  by (simp_all add: demo_unconfigured_def)

lemma demo_unconfigured_first:
  "recover_master_key answers 0 (demo_state []) = (Inl ValueError, demo_unconfigured [0, 0] 1)"
  by (simp add: demo_unconfigured_call demo_unconfigured_def)

lemma demo_unconfigured_next:
  assumes "length attempts < 3" "length attempts + 2 \<le> 6"
  shows "recover_master_key answers 0 (wait w (demo_unconfigured attempts now)) =
     (Inl ValueError,
      demo_unconfigured (attempts @ [now + w, now + w]) (now + w + 1))"
proof -
  let ?s = "wait w (demo_unconfigured attempts now)"
  have t: "recover_try (config ?s) answers = Inl (ValueError, True)"
    by (rule recover_try_not_configured [OF _ b64decode_b64encode contains_self_suffix])
       (simp add: demo_not_configured)
  have "length (recent_attempts (now + w) attempts) \<le> length attempts"
    by (simp add: recent_attempts_def)
  then have l: "\<not> is_locked_out (clock ?s) (get_user_id (config ?s)) (failed_attempts ?s)"
    using assms by (simp add: is_locked_out_def max_attempts_def)
  from recover_failure [OF l t, of 0] show ?thesis
    using assms
    by (simp add: record_attempt_def max_attempts_def wait_def demo_unconfigured_def)
qed

theorem recovery_not_configured_two_calls_witness:
  "contains NO_RECOVERY_SETUP (replicate 32 (Lit CHR ''t'') @ NO_RECOVERY_SETUP) \<and>
   recover_master_key [] 0 (demo_state []) = (Inl ValueError, demo_unconfigured [0, 0] 1) \<and>
   recover_master_key [] 0 (wait 0 (demo_unconfigured [0, 0] 1)) =
     (Inl ValueError, demo_unconfigured [0, 0, 1, 1] 2) \<and>
   retained (encode ''u1'') (failed_attempts (demo_unconfigured [0, 0, 1, 1] 2)) =
     [0, 0, 1, 1] \<and>
   is_locked_out 2 (encode ''u1'') (failed_attempts (demo_unconfigured [0, 0, 1, 1] 2)) \<and>
   is_locked_out (1199 / 2) (encode ''u1'')
     (failed_attempts (demo_unconfigured [0, 0, 1, 1] 2)) \<and>
   \<not> is_locked_out 600 (encode ''u1'') (failed_attempts (demo_unconfigured [0, 0, 1, 1] 2))"
proof -
  let ?s1 = "demo_unconfigured [0, 0] 1"
  let ?s2 = "demo_unconfigured [0, 0, 1, 1] 2"
  have m: "contains NO_RECOVERY_SETUP (replicate 32 (Lit CHR ''t'') @ NO_RECOVERY_SETUP)"
    by (rule contains_self_suffix)
  have e: "encrypted_recovery_encoder (config (demo_state [])) =
      Some (b64encode (replicate 32 (Lit CHR ''t'') @ NO_RECOVERY_SETUP))"
    by (simp add: demo_not_configured)
  have u: "encode ''u1'' = get_user_id (config (demo_state []))"
    by (simp add: demo_user_id)
  have f1: "\<not> is_locked_out (clock (demo_state [])) (encode ''u1'')
      (failed_attempts (demo_state []))"
    by simp
  have c1: "recover_master_key [] 0 (demo_state []) = (Inl ValueError, ?s1)"
    by (rule demo_unconfigured_first)
  have f2: "\<not> is_locked_out (clock ?s1 + 0) (encode ''u1'') (failed_attempts ?s1)"
    by (simp add: is_locked_out_def recent_attempts_def max_attempts_def)
  have c2: "recover_master_key [] 0 (wait 0 ?s1) = (Inl ValueError, ?s2)"
    using demo_unconfigured_next [of "[0, 0]" "[]" 0 1] by simp
  have n: "(0::real) \<le> 0" by simp
  have r0: "retained (encode ''u1'') (failed_attempts (demo_state [])) = []"
    by (simp add: retained_def)
  note th = recovery_not_configured_two_calls [OF e b64decode_b64encode m u f1 c1 f2 c2 n n n]
  have w1: "2 - (clock (demo_state []) + 0) < lockout_time"
    and w2: "1199 / 2 - (clock (demo_state []) + 0) < lockout_time"
    and w3: "\<not> 600 - (clock (demo_state []) + 0) < lockout_time"
    by (simp_all add: lockout_time_def)
  have k1: "is_locked_out 2 (encode ''u1'') (failed_attempts ?s2)"
    using th [of 2] w1 by blast
  have k2: "is_locked_out (1199 / 2) (encode ''u1'') (failed_attempts ?s2)"
    using th [of "1199 / 2"] w2 by blast
  have k3: "\<not> is_locked_out 600 (encode ''u1'') (failed_attempts ?s2)"
    using th [of 600] r0 w3 by blast
  have "retained (encode ''u1'') (failed_attempts ?s2) =
      [clock (demo_state []) + 0, clock (demo_state []) + 0, clock ?s1 + 0 + 0, clock ?s1 + 0 + 0]"
    using th [of 0] r0 by blast
  then have k4: "retained (encode ''u1'') (failed_attempts ?s2) = [0, 0, 1, 1]"
    by simp
  show ?thesis using m c1 c2 k1 k2 k3 k4 by blast
qed

theorem recovery_not_configured_far_apart:
  "recover_master_key [] 0 (demo_state []) = (Inl ValueError, demo_unconfigured [0, 0] 1) \<and>
   \<not> is_locked_out (clock (wait 598 (demo_unconfigured [0, 0] 1))) (encode ''u1'')
       (failed_attempts (wait 598 (demo_unconfigured [0, 0] 1))) \<and>
   recover_master_key [] 0 (wait 598 (demo_unconfigured [0, 0] 1)) =
     (Inl ValueError, demo_unconfigured [0, 0, 599, 599] 600) \<and>
   \<not> is_locked_out (clock (demo_unconfigured [0, 0, 599, 599] 600)) (encode ''u1'')
       (failed_attempts (demo_unconfigured [0, 0, 599, 599] 600)) \<and>
   fst (recover_master_key [] 0 (demo_unconfigured [0, 0, 599, 599] 600)) = Inl ValueError"
proof -
  have c2: "recover_master_key [] 0 (wait 598 (demo_unconfigured [0, 0] 1)) =
     (Inl ValueError, demo_unconfigured [0, 0, 599, 599] 600)"
    using demo_unconfigured_next [of "[0, 0]" "[]" 598 1] by simp
  have f1: "\<not> is_locked_out (clock (wait 598 (demo_unconfigured [0, 0] 1))) (encode ''u1'')
       (failed_attempts (wait 598 (demo_unconfigured [0, 0] 1)))"
    by (simp add: is_locked_out_def recent_attempts_def max_attempts_def)
  have f2: "\<not> is_locked_out (clock (demo_unconfigured [0, 0, 599, 599] 600)) (encode ''u1'')
       (failed_attempts (demo_unconfigured [0, 0, 599, 599] 600))"
    by (simp add: is_locked_out_def recent_attempts_def max_attempts_def lockout_time_def)
  have t: "recover_try (config (demo_unconfigured [0, 0, 599, 599] 600)) [] =
      Inl (ValueError, True)"
    by (rule recover_try_not_configured [OF _ b64decode_b64encode contains_self_suffix])
       (simp add: demo_not_configured)
  have f2': "\<not> is_locked_out (clock (demo_unconfigured [0, 0, 599, 599] 600))
       (get_user_id (config (demo_unconfigured [0, 0, 599, 599] 600)))
       (failed_attempts (demo_unconfigured [0, 0, 599, 599] 600))"
    using f2 by simp
  have c3: "fst (recover_master_key [] 0 (demo_unconfigured [0, 0, 599, 599] 600)) =
      Inl ValueError"
    using recover_failure [OF f2' t, of 0] by simp
  show ?thesis using demo_unconfigured_first [of "[]"] f1 c2 f2 c3 by blast
qed

section \<open>Claims on the lockout after three failures\<close>





text \<open>The concrete vault after a change of its password, with a given lockout table.\<close>

definition demo_after_change :: "attempts_table \<Rightarrow> real \<Rightarrow> auth_state" where
  "demo_after_change fa now =
     \<lparr>config = demo_changed ''N3w!Secret#Key97'', failed_attempts = fa, clock = now\<rparr>"

lemma demo_after_change_simps [simp]:
  "config (demo_after_change fa now) = demo_changed ''N3w!Secret#Key97''"
  "failed_attempts (demo_after_change fa now) = fa"
  "clock (demo_after_change fa now) = now"
  by (simp_all add: demo_after_change_def)






section \<open>Files on disk (\<open>os\<close>, \<open>shutil\<close>, \<open>open\<close>)\<close>

text \<open>
  A disk is a list of files under their paths, each with its content and its modification
  time. Directories are not kept: the code creates every directory it writes to
  (\<open>os.makedirs\<close>), and \<open>os.listdir\<close> is read off the paths. A temporary file that the
  code creates under a fresh random name (\<open>tempfile.mkstemp\<close>, \<open>SecureTempFile\<close>) is
  not kept either: when the call returns it has been renamed onto its target or removed by
  the handlers, so that writing a temporary file and renaming it is writing the target.
\<close>

type_synonym path = string

record disk_file =
  content :: bytes
  mtime :: nat

type_synonym disk = "(path \<times> disk_file) list"

definition path_exists :: "path \<Rightarrow> disk \<Rightarrow> bool" where
  "path_exists p d = (map_of d p \<noteq> None)"

definition getsize :: "path \<Rightarrow> disk \<Rightarrow> error + nat" where
  "getsize p d =
     (case map_of d p of None \<Rightarrow> Inl FileNotFoundError | Some f \<Rightarrow> Inr (length (content f)))"

definition read_bytes :: "path \<Rightarrow> disk \<Rightarrow> error + bytes" where
  "read_bytes p d =
     (case map_of d p of None \<Rightarrow> Inl FileNotFoundError | Some f \<Rightarrow> Inr (content f))"

definition write_bytes :: "nat \<Rightarrow> path \<Rightarrow> bytes \<Rightarrow> disk \<Rightarrow> disk" where
  "write_bytes t p b d = AList.update p \<lparr>content = b, mtime = t\<rparr> d"

definition os_remove :: "path \<Rightarrow> disk \<Rightarrow> error + disk" where
  "os_remove p d = (if path_exists p d then Inr (AList.delete p d) else Inl FileNotFoundError)"

definition os_replace :: "path \<Rightarrow> path \<Rightarrow> disk \<Rightarrow> error + disk" where
  "os_replace src dst d =
     (case map_of d src of
        None \<Rightarrow> Inl FileNotFoundError
      | Some f \<Rightarrow> Inr (AList.update dst f (AList.delete src d)))"

text \<open>\<open>shutil.copy2\<close> copies the content and the modification time.\<close>

definition copy2 :: "path \<Rightarrow> path \<Rightarrow> disk \<Rightarrow> error + disk" where
  "copy2 src dst d =
     (case map_of d src of
        None \<Rightarrow> Inl FileNotFoundError
      | Some f \<Rightarrow> Inr (AList.update dst f d))"

definition basename :: "path \<Rightarrow> string" where
  "basename p = rev (takeWhile (\<lambda>c. c \<noteq> CHR ''/'') (rev p))"

section \<open>The environment and the state of the vault\<close>

text \<open>
  What the code takes from its environment is a parameter of the model: the keys of
  \<open>Fernet.generate_key\<close> and the names of \<open>secrets.token_hex\<close>, by the number of the
  draw; the formats of the clock (\<open>isoformat\<close>, \<open>strftime\<close> to the second and to the
  microsecond); the numeric value
  of a byte that a library primitive has output; the result of \<open>json.loads\<close> on a text that
  \<open>json.dumps\<close> has not written; the type label that \<open>_get_file_type\<close> derives from a
  file name; and the two methods of the folder security manager that the core calls.
\<close>

record environment =
  generate_key :: "nat \<Rightarrow> bytes"
  token_hex :: "nat \<Rightarrow> string"
  isoformat :: "nat \<Rightarrow> string"
  strftime :: "nat \<Rightarrow> string"
  strftime_f :: "nat \<Rightarrow> string"
  byte_value :: "sbyte \<Rightarrow> nat"
  json_parse :: "bytes \<Rightarrow> error + sbyte json"
  get_file_type :: "path \<Rightarrow> string"
  is_folder_unlocked :: "string \<Rightarrow> bool"
  get_folder_key :: "string \<Rightarrow> bytes option"

text \<open>
  The state: the disk, the clock in seconds, the container of the master key with its usage
  counter (\<open>SecureKeyContainer\<close>), the number of random draws made so far, and the tree in
  memory (\<open>SecureVaultCore.filesystem\<close>).
\<close>

record vault_state =
  disk :: disk
  time_now :: nat
  secure_key :: "bytes option"
  key_usage_count :: nat
  draws :: nat
  filesystem :: "sbyte json"

section \<open>File encryption (\<open>crypto.SecureCryptoManager\<close>)\<close>

definition max_usage_before_rekey :: nat where
  "max_usage_before_rekey = 100"

definition chunk_size :: nat where
  "chunk_size = 64 * 1024"

definition large_file_threshold :: nat where
  "large_file_threshold = 10 * 1024 * 1024"

text \<open>
  \<open>_get_master_key\<close>: refused once the key has been retrieved
  \<open>max_usage_before_rekey\<close> times; \<open>retrieve\<close> raises \<open>ValueError\<close> on a cleared or
  empty container and counts the use otherwise.
\<close>

definition crypto_get_master_key :: "vault_state \<Rightarrow> (error + bytes) \<times> vault_state" where
  "crypto_get_master_key s =
     (if key_usage_count s \<ge> max_usage_before_rekey then (Inl SecurityError, s)
      else case secure_key s of
             None \<Rightarrow> (Inl ValueError, s)
           | Some k \<Rightarrow>
               if k = [] then (Inl ValueError, s)
               else (Inr k, s\<lparr>key_usage_count := key_usage_count s + 1\<rparr>))"

text \<open>\<open>encrypt_data\<close> and \<open>decrypt_data\<close>, called without \<open>key_id\<close> as everywhere in the code.\<close>

definition encrypt_data :: "bytes \<Rightarrow> vault_state \<Rightarrow> (error + bytes) \<times> vault_state" where
  "encrypt_data data s =
     (case crypto_get_master_key s of
        (Inl e, s') \<Rightarrow> (Inl e, s')
      | (Inr encryption_key, s') \<Rightarrow> (fernet_encrypt encryption_key data, s'))"

definition decrypt_data :: "bytes \<Rightarrow> vault_state \<Rightarrow> (error + bytes) \<times> vault_state" where
  "decrypt_data encrypted_data s =
     (case crypto_get_master_key s of
        (Inl e, s') \<Rightarrow> (Inl e, s')
      | (Inr decryption_key, s') \<Rightarrow> (fernet_decrypt decryption_key encrypted_data, s'))"

text \<open>The file key is wrapped under the folder key if there is one (and it is not empty).\<close>

definition wrap_file_key ::
  "bytes option \<Rightarrow> bytes \<Rightarrow> vault_state \<Rightarrow> (error + bytes) \<times> vault_state" where
  "wrap_file_key folder_key file_key s =
     (case folder_key of
        None \<Rightarrow> encrypt_data file_key s
      | Some fk \<Rightarrow> if fk = [] then encrypt_data file_key s else (fernet_encrypt fk file_key, s))"

definition unwrap_file_key ::
  "bytes option \<Rightarrow> bytes \<Rightarrow> vault_state \<Rightarrow> (error + bytes) \<times> vault_state" where
  "unwrap_file_key folder_key encrypted_file_key s =
     (case folder_key of
        None \<Rightarrow> decrypt_data encrypted_file_key s
      | Some fk \<Rightarrow>
          if fk = [] then decrypt_data encrypted_file_key s
          else (fernet_decrypt fk encrypted_file_key, s))"

text \<open>\<open>n.to_bytes(4, 'big')\<close> for \<open>n < 2 ^ 32\<close>, and \<open>int.from_bytes(b, 'big')\<close>.\<close>

definition to_bytes4 :: "nat \<Rightarrow> bytes" where
  "to_bytes4 n =
     map (\<lambda>i. Lit (char_of (n div 256 ^ (3 - i) mod 256))) [0..<4]"

definition byte_val :: "environment \<Rightarrow> sbyte \<Rightarrow> nat" where
  "byte_val env b = (case b of Lit c \<Rightarrow> of_char c | _ \<Rightarrow> byte_value env b mod 256)"

definition int_from_bytes :: "environment \<Rightarrow> bytes \<Rightarrow> nat" where
  "int_from_bytes env b = foldl (\<lambda>a x. 256 * a + byte_val env x) 0 b"

definition vault_file_name :: "string \<Rightarrow> path" where
  "vault_file_name file_id = ''data/encrypted_files/'' @ file_id @ ''.myarc''"

text \<open>The loop of \<open>encrypt_large_file\<close>: one Fernet token for every chunk read.\<close>

function encrypt_chunks :: "bytes \<Rightarrow> bytes \<Rightarrow> bytes" where
  "encrypt_chunks file_key data =
     (if data = [] then []
      else fernet_token file_key (take chunk_size data) @
           encrypt_chunks file_key (drop chunk_size data))"
  by pat_completeness auto

termination
  by (relation "measure (\<lambda>(file_key, data). length data)") (auto simp: chunk_size_def)

declare encrypt_chunks.simps [simp del]

text \<open>
  The loop of \<open>decrypt_large_file\<close>: it reads \<open>chunk_size + 100\<close> bytes at a time and
  decrypts each piece on its own; any failure is raised as \<open>ValueError\<close>.
\<close>

function decrypt_chunks :: "bytes \<Rightarrow> bytes \<Rightarrow> error + bytes" where
  "decrypt_chunks file_key data =
     (if data = [] then Inr []
      else case fernet_decrypt file_key (take (chunk_size + 100) data) of
             Inl e \<Rightarrow> Inl ValueError
           | Inr decrypted_chunk \<Rightarrow>
               (case decrypt_chunks file_key (drop (chunk_size + 100) data) of
                  Inl e \<Rightarrow> Inl e
                | Inr rest \<Rightarrow> Inr (decrypted_chunk @ rest)))"
  by pat_completeness auto

termination
  by (relation "measure (\<lambda>(file_key, data). length data)") (auto simp: chunk_size_def)

declare decrypt_chunks.simps [simp del]

text \<open>
  \<open>encrypt_large_file\<close>. The handler of its \<open>try\<close> block deletes the target if it
  exists and raises again.
\<close>

definition encrypt_large_file ::
  "environment \<Rightarrow> path \<Rightarrow> bytes option \<Rightarrow> vault_state \<Rightarrow>
   (error + path \<times> string) \<times> vault_state" where
  "encrypt_large_file env file_path folder_key s =
     (let file_key = generate_key env (draws s);
          file_id = token_hex env (draws s + 1);
          s1 = s\<lparr>draws := draws s + 2\<rparr>;
          vault_filename = vault_file_name file_id;
          cleanup = (\<lambda>s'. s'\<lparr>disk := AList.delete vault_filename (disk s')\<rparr>)
      in if \<not> valid_key file_key then (Inl ValueError, s\<lparr>draws := draws s + 1\<rparr>)
         else
           (case wrap_file_key folder_key file_key s1 of
              (Inl e, s2) \<Rightarrow> (Inl e, cleanup s2)
            | (Inr encrypted_file_key, s2) \<Rightarrow>
                (case read_bytes file_path (disk s2) of
                   Inl e \<Rightarrow> (Inl e, cleanup s2)
                 | Inr data \<Rightarrow>
                     (Inr (vault_filename, file_id),
                      s2\<lparr>disk := write_bytes (time_now s2) vault_filename
                                   (to_bytes4 (length encrypted_file_key) @ encrypted_file_key @
                                    encrypt_chunks file_key data)
                                   (disk s2)\<rparr>))))"

text \<open>
  \<open>encrypt_file\<close>. An exception in its \<open>try\<close> block can only come from the wrapping of
  the file key, before \<open>vault_filename\<close> is bound, so its handler deletes nothing.
\<close>

definition encrypt_file ::
  "environment \<Rightarrow> path \<Rightarrow> bytes option \<Rightarrow> vault_state \<Rightarrow>
   (error + path \<times> string) \<times> vault_state" where
  "encrypt_file env file_path folder_key s =
     (case read_bytes file_path (disk s) of
        Inl e \<Rightarrow> (Inl FileNotFoundError, s)
      | Inr file_data \<Rightarrow>
          if length file_data > large_file_threshold
          then encrypt_large_file env file_path folder_key s
          else
            (let file_key = generate_key env (draws s);
                 s1 = s\<lparr>draws := draws s + 1\<rparr>
             in if \<not> valid_key file_key then (Inl ValueError, s1)
                else
                  (case wrap_file_key folder_key file_key s1 of
                     (Inl e, s2) \<Rightarrow> (Inl e, s2)
                   | (Inr encrypted_file_key, s2) \<Rightarrow>
                       (let file_id = token_hex env (draws s2);
                            vault_filename = vault_file_name file_id
                        in (Inr (vault_filename, file_id),
                            s2\<lparr>draws := draws s2 + 1,
                               disk := write_bytes (time_now s2) vault_filename
                                         (to_bytes4 (length encrypted_file_key) @
                                          encrypted_file_key @ fernet_token file_key file_data)
                                         (disk s2)\<rparr>)))))"

text \<open>The handler of both decryption functions: delete the output file if it exists, raise again.\<close>

definition decrypt_failed :: "path \<Rightarrow> error \<Rightarrow> vault_state \<Rightarrow> (error + unit) \<times> vault_state" where
  "decrypt_failed output_path e s = (Inl e, s\<lparr>disk := AList.delete output_path (disk s)\<rparr>)"

definition decrypt_large_file ::
  "environment \<Rightarrow> path \<Rightarrow> path \<Rightarrow> bytes option \<Rightarrow> vault_state \<Rightarrow>
   (error + unit) \<times> vault_state" where
  "decrypt_large_file env vault_file_path output_path folder_key s =
     (case read_bytes vault_file_path (disk s) of
        Inl e \<Rightarrow> (Inl FileNotFoundError, s)
      | Inr data \<Rightarrow>
          (let key_length = int_from_bytes env (take 4 data);
               encrypted_file_key = take key_length (drop 4 data)
           in case unwrap_file_key folder_key encrypted_file_key s of
                (Inl e, s1) \<Rightarrow> decrypt_failed output_path e s1
              | (Inr file_key, s1) \<Rightarrow>
                  if \<not> valid_key file_key then decrypt_failed output_path ValueError s1
                  else
                    (case decrypt_chunks file_key (drop (4 + key_length) data) of
                       Inl e \<Rightarrow> decrypt_failed output_path e s1
                     | Inr plaintext \<Rightarrow>
                         (Inr (),
                          s1\<lparr>disk := write_bytes (time_now s1) output_path plaintext
                                       (disk s1)\<rparr>))))"

definition decrypt_file ::
  "environment \<Rightarrow> path \<Rightarrow> path \<Rightarrow> bytes option \<Rightarrow> vault_state \<Rightarrow>
   (error + unit) \<times> vault_state" where
  "decrypt_file env vault_file_path output_path folder_key s =
     (case read_bytes vault_file_path (disk s) of
        Inl e \<Rightarrow> (Inl FileNotFoundError, s)
      | Inr data \<Rightarrow>
          if length data > large_file_threshold
          then decrypt_large_file env vault_file_path output_path folder_key s
          else
            (let key_length = int_from_bytes env (take 4 data);
                 encrypted_file_key = take key_length (drop 4 data);
                 encrypted_data = drop (4 + key_length) data
             in case unwrap_file_key folder_key encrypted_file_key s of
                  (Inl e, s1) \<Rightarrow> decrypt_failed output_path e s1
                | (Inr file_key, s1) \<Rightarrow>
                    (case fernet_decrypt file_key encrypted_data of
                       Inl e \<Rightarrow> decrypt_failed output_path e s1
                     | Inr decrypted_data \<Rightarrow>
                         (Inr (),
                          s1\<lparr>disk := write_bytes (time_now s1) output_path decrypted_data
                                       (disk s1)\<rparr>))))"

text \<open>\<open>calculate_file_hash\<close> returns \<open>None\<close> when the file cannot be read.\<close>

definition calculate_file_hash :: "path \<Rightarrow> disk \<Rightarrow> bytes option" where
  "calculate_file_hash file_path d =
     (case read_bytes file_path d of Inl e \<Rightarrow> None | Inr data \<Rightarrow> Some (sha256_hexdigest data))"

section \<open>Properties of file encryption\<close>

lemma fernet_len_ge: "n < fernet_len n"
proof -
  define q where "q = n div 16"
  define d where "d = (57 + 16 * (q + 1) + 2) div 3"
  have "n < 16 * q + 16" unfolding q_def by presburger
  moreover have "57 + 16 * (q + 1) + 2 \<le> 3 * d + 2"
    unfolding d_def by presburger
  ultimately have "n < 4 * d" by simp
  then show ?thesis by (simp add: fernet_len_def q_def d_def)
qed

lemma fernet_decrypt_take:
  assumes "n < length (fernet_token k p)"
  shows "\<exists>e. fernet_decrypt k' (take n (fernet_token k p)) = Inl e"
proof (cases "fernet_decrypt k' (take n (fernet_token k p))")
  case (Inl e)
  then show ?thesis by blast
next
  case (Inr p')
  then have e: "take n (fernet_token k p) = fernet_token k' p'"
    by (auto dest: fernet_decrypt_Inr)
  have "fernet_token k' p' \<noteq> []"
    using fernet_len_pos [of "length p'"] by (auto simp: fernet_token_def sym_def)
  then have n: "0 < n" using e by (cases n) auto
  have "fernet_token k p = Sym ''fernet'' [k, p] 0 #
      map (Sym ''fernet'' [k, p]) [1..<fernet_len (length p)]"
    unfolding fernet_token_def by (rule sym_Cons) (rule fernet_len_pos)
  moreover have "fernet_token k' p' = Sym ''fernet'' [k', p'] 0 #
      map (Sym ''fernet'' [k', p']) [1..<fernet_len (length p')]"
    unfolding fernet_token_def by (rule sym_Cons) (rule fernet_len_pos)
  ultimately have "k' = k \<and> p' = p" using e n by (cases n) auto
  then have "length (take n (fernet_token k p)) = length (fernet_token k p)"
    using e by simp
  then show ?thesis using assms by simp
qed

lemma encrypt_chunks_Nil [simp]: "encrypt_chunks file_key [] = []"
  by (subst encrypt_chunks.simps) simp

lemma encrypt_chunks_step:
  "data \<noteq> [] \<Longrightarrow>
   encrypt_chunks file_key data =
     fernet_token file_key (take chunk_size data) @
     encrypt_chunks file_key (drop chunk_size data)"
  by (subst encrypt_chunks.simps) simp

lemma length_encrypt_chunks: "length data \<le> length (encrypt_chunks file_key data)"
proof (induction file_key data rule: encrypt_chunks.induct)
  case (1 file_key data)
  show ?case
  proof (cases "data = []")
    case True
    then show ?thesis by simp
  next
    case False
    let ?a = "take chunk_size data" and ?b = "drop chunk_size data"
    have a: "length ?a \<le> length (fernet_token file_key ?a)"
      using fernet_len_ge [of "length ?a"] by (simp only: length_fernet_token)
    have b: "length ?b \<le> length (encrypt_chunks file_key ?b)"
      using 1 False by blast
    have "length data = length ?a + length ?b"
      by (metis append_take_drop_id length_append)
    also have "\<dots> \<le> length (fernet_token file_key ?a) + length (encrypt_chunks file_key ?b)"
      using a b by (rule add_mono)
    also have "\<dots> = length (encrypt_chunks file_key data)"
      by (simp only: encrypt_chunks_step [OF False] length_append)
    finally show ?thesis .
  qed
qed

text \<open>A stream whose first token is longer than one read cannot be decrypted.\<close>

lemma decrypt_chunks_long_token:
  assumes "chunk_size + 100 < length (fernet_token k p)"
  shows "decrypt_chunks file_key (fernet_token k p @ rest) = Inl ValueError"
proof -
  have t: "take (chunk_size + 100) (fernet_token k p @ rest) =
      take (chunk_size + 100) (fernet_token k p)"
    using assms by simp
  obtain e where "fernet_decrypt file_key (take (chunk_size + 100) (fernet_token k p)) = Inl e"
    using fernet_decrypt_take [OF assms] by blast
  moreover have "fernet_token k p @ rest \<noteq> []"
    using fernet_len_pos [of "length p"] by (auto simp: fernet_token_def sym_def)
  ultimately show ?thesis
    by (subst decrypt_chunks.simps) (simp only: t if_False sum.case)
qed

lemma decrypt_chunks_encrypt_chunks:
  assumes "chunk_size \<le> length data"
  shows "decrypt_chunks file_key' (encrypt_chunks file_key data) = Inl ValueError"
proof -
  have ne: "data \<noteq> []" using assms by (auto simp: chunk_size_def)
  have "length (take chunk_size data) = chunk_size" using assms by simp
  then have "length (fernet_token file_key (take chunk_size data)) = fernet_len chunk_size"
    by (simp add: length_fernet_token)
  then have "chunk_size + 100 < length (fernet_token file_key (take chunk_size data))"
    by (simp add: fernet_len_def chunk_size_def)
  then show ?thesis
    by (simp only: encrypt_chunks_step [OF ne] decrypt_chunks_long_token)
qed

lemma int_from_bytes_to_bytes4 [simp]: "int_from_bytes env (to_bytes4 140) = 140"
  by (simp add: int_from_bytes_def to_bytes4_def byte_val_def upt_conv_Cons)

lemma length_to_bytes4 [simp]: "length (to_bytes4 n) = 4"
  by (simp add: to_bytes4_def)

lemma fernet_len_key [simp]: "valid_key fk \<Longrightarrow> fernet_len (length fk) = 140"
  by (simp add: fernet_len_def valid_key_def)

lemma crypto_get_master_key_ok:
  assumes "secure_key s = Some k" "valid_key k" "key_usage_count s < max_usage_before_rekey"
  shows "crypto_get_master_key s = (Inr k, s\<lparr>key_usage_count := key_usage_count s + 1\<rparr>)"
proof -
  have "k \<noteq> []" using assms(2) by (auto simp: valid_key_def)
  then show ?thesis using assms by (simp add: crypto_get_master_key_def)
qed

lemma encrypt_data_ok:
  assumes "secure_key s = Some k" "valid_key k" "key_usage_count s < max_usage_before_rekey"
  shows "encrypt_data data s =
           (Inr (fernet_token k data), s\<lparr>key_usage_count := key_usage_count s + 1\<rparr>)"
  using assms by (simp add: encrypt_data_def crypto_get_master_key_ok fernet_encrypt_def)

lemma decrypt_data_ok:
  assumes "secure_key s = Some k" "valid_key k" "key_usage_count s < max_usage_before_rekey"
  shows "decrypt_data token s =
           (fernet_decrypt k token, s\<lparr>key_usage_count := key_usage_count s + 1\<rparr>)"
  using assms by (simp add: decrypt_data_def crypto_get_master_key_ok)

lemma map_of_write_bytes [simp]:
  "map_of (write_bytes t p b d) = (map_of d)(p \<mapsto> \<lparr>content = b, mtime = t\<rparr>)"
  by (simp add: write_bytes_def update_conv')

lemma read_bytes_write_bytes [simp]:
  "read_bytes p (write_bytes t p b d) = Inr b"
  by (simp add: read_bytes_def)

text \<open>What \<open>encrypt_file\<close> writes, in its two modes\<close>

lemma encrypt_file_streaming:
  assumes "read_bytes file_path (disk s) = Inr data" "large_file_threshold < length data"
    and "valid_key (generate_key env (draws s))"
    and "secure_key s = Some k" "valid_key k" "key_usage_count s < max_usage_before_rekey"
  shows "encrypt_file env file_path None s =
     (Inr (vault_file_name (token_hex env (draws s + 1)), token_hex env (draws s + 1)),
      s\<lparr>draws := draws s + 2, key_usage_count := key_usage_count s + 1,
        disk := write_bytes (time_now s) (vault_file_name (token_hex env (draws s + 1)))
                  (to_bytes4 140 @ fernet_token k (generate_key env (draws s)) @
                   encrypt_chunks (generate_key env (draws s)) data)
                  (disk s)\<rparr>)"
  using assms
  by (simp add: encrypt_file_def encrypt_large_file_def Let_def wrap_file_key_def
        encrypt_data_ok [where k = k])

lemma encrypt_file_single_shot:
  assumes "read_bytes file_path (disk s) = Inr data" "length data \<le> large_file_threshold"
    and "valid_key (generate_key env (draws s))"
    and "secure_key s = Some k" "valid_key k" "key_usage_count s < max_usage_before_rekey"
  shows "encrypt_file env file_path None s =
     (Inr (vault_file_name (token_hex env (draws s + 1)), token_hex env (draws s + 1)),
      s\<lparr>draws := draws s + 2, key_usage_count := key_usage_count s + 1,
        disk := write_bytes (time_now s) (vault_file_name (token_hex env (draws s + 1)))
                  (to_bytes4 140 @ fernet_token k (generate_key env (draws s)) @
                   fernet_token (generate_key env (draws s)) data)
                  (disk s)\<rparr>)"
  using assms
  by (simp add: encrypt_file_def Let_def wrap_file_key_def encrypt_data_ok [where k = k])

text \<open>Opening a file of more than 10 MiB whose stream cannot be decrypted in pieces\<close>

lemma decrypt_file_streaming_fails:
  assumes "read_bytes vault_file_path (disk s) =
             Inr (to_bytes4 140 @ fernet_token k file_key @ stream)"
    and "large_file_threshold < 144 + length stream"
    and "valid_key file_key"
    and "secure_key s = Some k" "valid_key k" "key_usage_count s < max_usage_before_rekey"
    and "decrypt_chunks file_key stream = Inl ValueError"
  shows "decrypt_file env vault_file_path output_path None s =
     (Inl ValueError,
      s\<lparr>key_usage_count := key_usage_count s + 1,
        disk := AList.delete output_path (disk s)\<rparr>)"
  using assms
  by (simp add: decrypt_file_def decrypt_large_file_def Let_def unwrap_file_key_def
        decrypt_data_ok [where k = k] decrypt_failed_def)

text \<open>Opening a file of at most 10 MiB\<close>

lemma decrypt_file_single_shot:
  assumes "read_bytes vault_file_path (disk s) =
             Inr (to_bytes4 140 @ fernet_token k file_key @ fernet_token file_key data)"
    and "144 + fernet_len (length data) \<le> large_file_threshold"
    and "valid_key file_key"
    and "secure_key s = Some k" "valid_key k" "key_usage_count s < max_usage_before_rekey"
  shows "decrypt_file env vault_file_path output_path None s =
     (Inr (),
      s\<lparr>key_usage_count := key_usage_count s + 1,
        disk := write_bytes (time_now s) output_path data (disk s)\<rparr>)"
  using assms
  by (simp add: decrypt_file_def Let_def unwrap_file_key_def decrypt_data_ok [where k = k])

section \<open>A concrete vault\<close>

text \<open>
  An environment for the concrete runs: every file key is the same valid key, the names
  drawn are \<open>f0\<close>, \<open>f1\<close>, \<dots>, the clock formats show the last digit of the seconds, and
  no folder is unlocked.
\<close>

definition demo_digit :: "nat \<Rightarrow> string" where
  "demo_digit n = take 1 (drop (n mod 10) ''0123456789'')"

definition demo_env :: environment where
  "demo_env =
     \<lparr>generate_key = (\<lambda>n. demo_key CHR ''F''),
      token_hex = (\<lambda>n. ''f'' @ demo_digit n),
      isoformat = (\<lambda>t. ''2024-01-01T00:00:0'' @ demo_digit t),
      strftime = (\<lambda>t. ''20240101_00000'' @ demo_digit t),
      strftime_f = (\<lambda>t. ''20240101_00000'' @ demo_digit t @ ''_000000''),
      byte_value = (\<lambda>b. 0),
      json_parse = (\<lambda>b. Inl JSONDecodeError),
      get_file_type = (\<lambda>p. ''binary''),
      is_folder_unlocked = (\<lambda>folder_id. False),
      get_folder_key = (\<lambda>folder_id. None)\<rparr>"

text \<open>A state with the given files and tree, the master key loaded and not yet used.\<close>

definition demo_vault :: "disk \<Rightarrow> sbyte json \<Rightarrow> vault_state" where
  "demo_vault d tree =
     \<lparr>disk = d, time_now = 0, secure_key = Some (demo_key CHR ''M''), key_usage_count = 0,
      draws = 0, filesystem = tree\<rparr>"

text \<open>A file \<open>in.bin\<close> of \<open>n\<close> bytes.\<close>

definition demo_source :: "nat \<Rightarrow> disk" where
  "demo_source n = [(''in.bin'', \<lparr>content = replicate n (Lit CHR ''x''), mtime = 0\<rparr>)]"

lemma demo_vault_simps [simp]:
  "disk (demo_vault d tree) = d" "time_now (demo_vault d tree) = 0"
  "secure_key (demo_vault d tree) = Some (demo_key CHR ''M'')"
  "key_usage_count (demo_vault d tree) = 0" "draws (demo_vault d tree) = 0"
  "filesystem (demo_vault d tree) = tree"
  by (simp_all add: demo_vault_def)

lemma demo_env_simps [simp]:
  "generate_key demo_env n = demo_key CHR ''F''"
  "token_hex demo_env n = ''f'' @ demo_digit n"
  "isoformat demo_env t = ''2024-01-01T00:00:0'' @ demo_digit t"
  "strftime demo_env t = ''20240101_00000'' @ demo_digit t"
  "strftime_f demo_env t = ''20240101_00000'' @ demo_digit t @ ''_000000''"
  "json_parse demo_env b = Inl JSONDecodeError"
  "get_file_type demo_env p = ''binary''"
  "is_folder_unlocked demo_env folder_id = False"
  "get_folder_key demo_env folder_id = None"
  by (simp_all add: demo_env_def)

lemma demo_digit_simps [simp]:
  "demo_digit 0 = ''0''" "demo_digit 1 = ''1''" "demo_digit 2 = ''2''" "demo_digit 3 = ''3''"
  "demo_digit 4 = ''4''" "demo_digit 5 = ''5''" "demo_digit 6 = ''6''" "demo_digit 7 = ''7''"
  "demo_digit (Suc 0) = ''1''"
  by (simp_all add: demo_digit_def)

lemma read_demo_source [simp]:
  "read_bytes ''in.bin'' (demo_source n) = Inr (replicate n (Lit CHR ''x''))"
  by (simp add: read_bytes_def demo_source_def)

text \<open>
  Claim C4. A file of 10 MiB + 1 byte is sealed in streaming mode; opening the sealed file
  with the same key fails with \<open>ValueError\<close> and leaves no output: each chunk of 65536
  bytes is written as a token of 87480 bytes, and \<open>decrypt_large_file\<close> reads the file in
  pieces of 65636 bytes. A file of 8 MiB is sealed single-shot into a file of more than
  10 MiB, which is then opened in streaming mode and fails in the same way.
\<close>

theorem seal_then_open_fails_above_threshold:
  "encrypt_file demo_env ''in.bin'' None (demo_vault (demo_source 10485761) JNull) =
     (Inr (''data/encrypted_files/f1.myarc'', ''f1''),
      demo_vault (demo_source 10485761) JNull
        \<lparr>draws := 2, key_usage_count := 1,
          disk := write_bytes 0 ''data/encrypted_files/f1.myarc''
                    (to_bytes4 140 @ fernet_token (demo_key CHR ''M'') (demo_key CHR ''F'') @
                     encrypt_chunks (demo_key CHR ''F'') (replicate 10485761 (Lit CHR ''x'')))
                    (demo_source 10485761)\<rparr>) \<and>
   fst (decrypt_file demo_env ''data/encrypted_files/f1.myarc'' ''out.bin'' None
          (snd (encrypt_file demo_env ''in.bin'' None
                  (demo_vault (demo_source 10485761) JNull)))) = Inl ValueError \<and>
   read_bytes ''out.bin''
     (disk (snd (decrypt_file demo_env ''data/encrypted_files/f1.myarc'' ''out.bin'' None
          (snd (encrypt_file demo_env ''in.bin'' None
                  (demo_vault (demo_source 10485761) JNull)))))) = Inl FileNotFoundError \<and>
   encrypt_file demo_env ''in.bin'' None (demo_vault (demo_source 8388608) JNull) =
     (Inr (''data/encrypted_files/f1.myarc'', ''f1''),
      demo_vault (demo_source 8388608) JNull
        \<lparr>draws := 2, key_usage_count := 1,
          disk := write_bytes 0 ''data/encrypted_files/f1.myarc''
                    (to_bytes4 140 @ fernet_token (demo_key CHR ''M'') (demo_key CHR ''F'') @
                     fernet_token (demo_key CHR ''F'') (replicate 8388608 (Lit CHR ''x'')))
                    (demo_source 8388608)\<rparr>) \<and>
   fst (decrypt_file demo_env ''data/encrypted_files/f1.myarc'' ''out.bin'' None
          (snd (encrypt_file demo_env ''in.bin'' None
                  (demo_vault (demo_source 8388608) JNull)))) = Inl ValueError"
proof -
  let ?k = "demo_key CHR ''M''" and ?fk = "demo_key CHR ''F''"
  let ?v = "''data/encrypted_files/f1.myarc''"
  let ?big = "replicate 10485761 (Lit CHR ''x'')"
  let ?mid = "replicate 8388608 (Lit CHR ''x'')"
  let ?s = "demo_vault (demo_source 10485761) JNull"
  let ?t = "demo_vault (demo_source 8388608) JNull"
  let ?e = "encrypt_file demo_env ''in.bin'' None ?s"
  let ?f = "encrypt_file demo_env ''in.bin'' None ?t"
  have e: "?e =
     (Inr (?v, ''f1''),
      ?s\<lparr>draws := 2, key_usage_count := 1,
          disk := write_bytes 0 ?v (to_bytes4 140 @ fernet_token ?k ?fk @ encrypt_chunks ?fk ?big)
                    (demo_source 10485761)\<rparr>)"
    using encrypt_file_streaming [of "''in.bin''" ?s ?big demo_env ?k]
    by (simp add: large_file_threshold_def max_usage_before_rekey_def vault_file_name_def)
  have "decrypt_chunks ?fk (encrypt_chunks ?fk ?big) = Inl ValueError"
    by (rule decrypt_chunks_encrypt_chunks) (simp add: chunk_size_def)
  moreover have "large_file_threshold < 144 + length (encrypt_chunks ?fk ?big)"
    using length_encrypt_chunks [of ?big ?fk] by (simp add: large_file_threshold_def)
  ultimately have d: "decrypt_file demo_env ?v ''out.bin'' None (snd ?e) =
     (Inl ValueError,
      (snd ?e)\<lparr>key_usage_count := key_usage_count (snd ?e) + 1,
        disk := AList.delete ''out.bin'' (disk (snd ?e))\<rparr>)"
    by (intro decrypt_file_streaming_fails [where k = ?k and file_key = ?fk])
       (simp_all add: e max_usage_before_rekey_def)
  have o: "read_bytes ''out.bin'' (disk (snd (decrypt_file demo_env ?v ''out.bin'' None (snd ?e)))) =
      Inl FileNotFoundError"
    by (simp add: d read_bytes_def delete_conv')
  have f: "?f =
     (Inr (?v, ''f1''),
      ?t\<lparr>draws := 2, key_usage_count := 1,
          disk := write_bytes 0 ?v (to_bytes4 140 @ fernet_token ?k ?fk @ fernet_token ?fk ?mid)
                    (demo_source 8388608)\<rparr>)"
    using encrypt_file_single_shot [of "''in.bin''" ?t ?mid demo_env ?k]
    by (simp add: large_file_threshold_def max_usage_before_rekey_def vault_file_name_def)
  have "decrypt_chunks ?fk (fernet_token ?fk ?mid @ []) = Inl ValueError"
    by (rule decrypt_chunks_long_token) (simp add: chunk_size_def fernet_len_def)
  then have g: "decrypt_file demo_env ?v ''out.bin'' None (snd ?f) =
     (Inl ValueError,
      (snd ?f)\<lparr>key_usage_count := key_usage_count (snd ?f) + 1,
        disk := AList.delete ''out.bin'' (disk (snd ?f))\<rparr>)"
    by (intro decrypt_file_streaming_fails [where k = ?k and file_key = ?fk])
       (simp_all add: f max_usage_before_rekey_def large_file_threshold_def fernet_len_def)
  have d1: "fst (decrypt_file demo_env ?v ''out.bin'' None (snd ?e)) = Inl ValueError"
    by (simp only: d fst_conv)
  have g1: "fst (decrypt_file demo_env ?v ''out.bin'' None (snd ?f)) = Inl ValueError"
    by (simp only: g fst_conv)
  show ?thesis
    by (intro conjI) (rule e d1 o f g1)+
qed

section \<open>The tree in memory (\<open>vault_core.SecureVaultCore\<close>)\<close>

subsection \<open>JSON texts and Python's access to JSON values\<close>

text \<open>
  \<open>json.dumps\<close> of a value is a text of opaque bytes that carries the value; its length
  is not modelled beyond being positive. \<open>json.loads\<close> returns the value of a text that
  \<open>json.dumps\<close> has written; on any other text its result is given by the environment.
\<close>

definition json_dumps :: "sbyte json \<Rightarrow> bytes" where
  "json_dumps j = map (JsonB j) [0..<Suc (size j)]"

definition json_loads :: "environment \<Rightarrow> bytes \<Rightarrow> error + sbyte json" where
  "json_loads env b =
     (case b of
        JsonB j i # rest \<Rightarrow> if b = json_dumps j then Inr j else json_parse env b
      | _ \<Rightarrow> json_parse env b)"

text \<open>
  \<open>d[key]\<close>, \<open>d.get(key, default)\<close> and \<open>key in d\<close>. Where Python raises
  \<open>TypeError\<close> or \<open>AttributeError\<close> because the value has the wrong shape, the model
  raises \<open>TypeError\<close>; a missing key is \<open>KeyError\<close>.
\<close>

fun jitem :: "string \<Rightarrow> sbyte json \<Rightarrow> error + sbyte json" where
  "jitem k (JObj kvs) = (case map_of kvs k of None \<Rightarrow> Inl KeyError | Some v \<Rightarrow> Inr v)"
| "jitem k j = Inl TypeError"

fun jget :: "string \<Rightarrow> sbyte json \<Rightarrow> sbyte json \<Rightarrow> error + sbyte json" where
  "jget k dflt (JObj kvs) = (case map_of kvs k of None \<Rightarrow> Inr dflt | Some v \<Rightarrow> Inr v)"
| "jget k dflt j = Inl TypeError"

fun jcontains :: "string \<Rightarrow> sbyte json \<Rightarrow> error + bool" where
  "jcontains k (JObj kvs) = Inr (map_of kvs k \<noteq> None)"
| "jcontains k (JArr xs) = Inr (JStr (encode k) \<in> set xs)"
| "jcontains k (JStr s) = Inr (contains (encode k) s)"
| "jcontains k j = Inl TypeError"

text \<open>\<open>d[key] = value\<close> on a \<open>dict\<close>, and \<open>xs.append(value)\<close> on a \<open>list\<close>.\<close>

fun jset :: "string \<Rightarrow> sbyte json \<Rightarrow> sbyte json \<Rightarrow> error + sbyte json" where
  "jset k v (JObj kvs) = Inr (JObj (AList.update k v kvs))"
| "jset k v j = Inl TypeError"

fun jappend :: "sbyte json \<Rightarrow> sbyte json \<Rightarrow> error + sbyte json" where
  "jappend v (JArr xs) = Inr (JArr (xs @ [v]))"
| "jappend v j = Inl TypeError"

text \<open>A JSON string used as a path or a name: its bytes must be literal.\<close>

fun literal :: "bytes \<Rightarrow> string option" where
  "literal [] = Some []"
| "literal (Lit c # bs) = map_option ((#) c) (literal bs)"
| "literal (b # bs) = None"

fun jpath :: "sbyte json \<Rightarrow> error + path" where
  "jpath (JStr s) = (case literal s of None \<Rightarrow> Inl TypeError | Some p \<Rightarrow> Inr p)"
| "jpath j = Inl TypeError"

definition filesystem_path :: path where
  "filesystem_path = ''data/filesystem.json.enc''"

definition backups_dir :: path where
  "backups_dir = ''data/backups''"

text \<open>
  \<open>os.path.join\<close> of a directory written without a final separator and a relative name;
  \<open>os.listdir\<close>, the names of the files directly in a directory; \<open>os.path.getmtime\<close>.
\<close>

definition join :: "path \<Rightarrow> string \<Rightarrow> path" where
  "join dir name = dir @ ''/'' @ name"

definition listdir :: "path \<Rightarrow> disk \<Rightarrow> string list" where
  "listdir dir d =
     [drop (length dir + 1) p. p \<leftarrow> remdups (map fst d), is_prefix (dir @ ''/'') p,
        CHR ''/'' \<notin> set (drop (length dir + 1) p)]"

definition getmtime :: "path \<Rightarrow> disk \<Rightarrow> error + nat" where
  "getmtime p d = (case map_of d p of None \<Rightarrow> Inl FileNotFoundError | Some f \<Rightarrow> Inr (mtime f))"

subsection \<open>Saving the tree and its backups\<close>

text \<open>
  The backups of the tree in \<open>data/backups\<close>: the files whose name starts with
  \<open>filesystem_backup_\<close>, as pairs of modification time and path.
\<close>

definition list_backups :: "disk \<Rightarrow> (nat \<times> path) list" where
  "list_backups d =
     [(t, join backups_dir f). f \<leftarrow> listdir backups_dir d,
        is_prefix ''filesystem_backup_'' f,
        t \<leftarrow> (case getmtime (join backups_dir f) d of Inl e \<Rightarrow> [] | Inr t \<Rightarrow> [t])]"

text \<open>\<open>backups.sort(reverse=True)\<close>\<close>

definition newest_first :: "(nat \<times> path) list \<Rightarrow> (nat \<times> path) list" where
  "newest_first backups = rev (sort backups)"

text \<open>
  \<open>_create_filesystem_backup\<close>: copy the tree file to a backup named by the clock, then
  keep the ten newest backups. Its exceptions are logged and dropped.
\<close>

definition create_filesystem_backup :: "environment \<Rightarrow> vault_state \<Rightarrow> vault_state" where
  "create_filesystem_backup env s =
     (let backup_path = join backups_dir
                          (''filesystem_backup_'' @ strftime env (time_now s) @ ''.json.enc'');
          d1 = (case copy2 filesystem_path backup_path (disk s) of
                  Inl e \<Rightarrow> disk s | Inr d \<Rightarrow> d);
          old = drop 10 (newest_first (list_backups d1))
      in s\<lparr>disk := foldl (\<lambda>d backup. AList.delete (snd backup) d) d1 old\<rparr>)"

text \<open>
  \<open>_save_filesystem\<close>: the tree with its checksum, the time and the version, encrypted
  under the master key, replaces the tree file; then the backup is made.
\<close>

definition save_filesystem :: "environment \<Rightarrow> vault_state \<Rightarrow> (error + unit) \<times> vault_state" where
  "save_filesystem env s =
     (let data = json_dumps (filesystem s);
          checksum = sha256 data;
          payload = JObj [(''data'', JStr (b64encode data)),
                          (''checksum'', JStr (b64encode checksum)),
                          (''timestamp'', JStr (encode (isoformat env (time_now s)))),
                          (''version'', JStr (encode ''2.0''))];
          payload_data = json_dumps payload
      in case encrypt_data payload_data s of
           (Inl e, s1) \<Rightarrow> (Inl e, s1)
         | (Inr encrypted_data, s1) \<Rightarrow>
             (Inr (),
              create_filesystem_backup env
                (s1\<lparr>disk := write_bytes (time_now s1) filesystem_path encrypted_data
                                (disk s1)\<rparr>)))"

text \<open>The name of the root folder, \<open>U+041A U+043E \<dots>\<close> in UTF-8.\<close>

definition root_folder_name :: bytes where
  "root_folder_name =
     map (\<lambda>n. Lit (char_of (n :: nat)))
       [208, 154, 208, 190, 209, 128, 208, 189, 208, 181, 208, 178, 208, 176, 209, 143, 32,
        208, 191, 208, 176, 208, 191, 208, 186, 208, 176]"

definition default_filesystem :: "environment \<Rightarrow> nat \<Rightarrow> sbyte json" where
  "default_filesystem env t =
     JObj [(''files'', JObj []),
           (''folders'',
            JObj [(''root'',
                   JObj [(''id'', JStr (encode ''root'')),
                         (''name'', JStr root_folder_name),
                         (''encrypted_name'', JStr (b64encode root_folder_name)),
                         (''parent'', JNull),
                         (''children'', JArr []),
                         (''created_at'', JStr (encode (isoformat env t))),
                         (''is_locked'', JBool False)])]),
           (''version'', JStr (encode ''2.0'')),
           (''created_at'', JStr (encode (isoformat env t)))]"

definition create_default_filesystem ::
  "environment \<Rightarrow> vault_state \<Rightarrow> (error + unit) \<times> vault_state" where
  "create_default_filesystem env s =
     save_filesystem env (s\<lparr>filesystem := default_filesystem env (time_now s)\<rparr>)"

text \<open>
  What \<open>_restore_from_backup\<close> does with the decrypted text of a backup: parse it,
  decode the data and the checksum, compare the checksum, parse the data as the tree.
\<close>

definition decode_backup :: "environment \<Rightarrow> bytes \<Rightarrow> error + sbyte json" where
  "decode_backup env decrypted_data =
     and_then (json_loads env decrypted_data) (\<lambda>payload.
     and_then (jitem ''data'' payload) (\<lambda>data64.
     and_then (case data64 of JStr b \<Rightarrow> b64decode b | _ \<Rightarrow> Inl TypeError) (\<lambda>data.
     and_then (jitem ''checksum'' payload) (\<lambda>checksum64.
     and_then (case checksum64 of JStr b \<Rightarrow> b64decode b | _ \<Rightarrow> Inl TypeError)
       (\<lambda>expected_checksum.
       if sha256 data \<noteq> expected_checksum then Inl ValueError
       else json_loads env data)))))"

text \<open>
  \<open>_restore_from_backup\<close>: read and decrypt the backup, take its tree and save it.
  Every exception is logged and raised again.
\<close>

definition restore_from_backup ::
  "environment \<Rightarrow> path \<Rightarrow> vault_state \<Rightarrow> (error + unit) \<times> vault_state" where
  "restore_from_backup env backup_path s =
     (case read_bytes backup_path (disk s) of
        Inl e \<Rightarrow> (Inl FileNotFoundError, s)
      | Inr encrypted_data \<Rightarrow>
          (case decrypt_data encrypted_data s of
             (Inl e, s1) \<Rightarrow> (Inl e, s1)
           | (Inr decrypted_data, s1) \<Rightarrow>
               (case decode_backup env decrypted_data of
                  Inl e \<Rightarrow> (Inl e, s1)
                | Inr tree \<Rightarrow> save_filesystem env (s1\<lparr>filesystem := tree\<rparr>))))"

subsection \<open>Loading the tree\<close>

text \<open>
  \<open>_backup_corrupted_filesystem\<close>: copy the tree file aside as
  \<open>corrupted_filesystem_<time>.bak\<close>; its exceptions are logged and dropped.
\<close>

definition corrupted_path :: "environment \<Rightarrow> nat \<Rightarrow> path" where
  "corrupted_path env t = join backups_dir (''corrupted_filesystem_'' @ strftime env t @ ''.bak'')"

definition backup_corrupted_filesystem :: "environment \<Rightarrow> vault_state \<Rightarrow> vault_state" where
  "backup_corrupted_filesystem env s =
     (case copy2 filesystem_path (corrupted_path env (time_now s)) (disk s) of
        Inl e \<Rightarrow> s
      | Inr d \<Rightarrow> s\<lparr>disk := d\<rparr>)"

text \<open>
  \<open>_load_filesystem\<close> reads the tree file through \<open>_atomic_file_operation\<close>, which
  opens a new temporary file for writing (\<open>os.fdopen(fd, 'wb')\<close>) and passes that handle to
  the callback. The callback \<open>read_operation\<close> calls \<open>read()\<close> on it, which raises
  \<open>io.UnsupportedOperation\<close>; \<open>_atomic_file_operation\<close> removes the temporary file and
  raises again. So the read raises for every tree file, and the rest of the \<open>try\<close> block
  (decryption, version and checksum tests, \<open>_validate_filesystem_integrity\<close>,
  \<open>_optimize_filesystem_structure\<close>) never runs; it is not part of the model.
\<close>

definition read_operation :: error where
  "read_operation = UnsupportedOperation"

text \<open>
  The handler for \<open>JSONDecodeError\<close>, \<open>ValueError\<close> and \<open>KeyError\<close>: set the file
  aside, then restore the newest backup if there is one; without a backup, or on any
  exception of the restoring, make the default tree.
\<close>

definition recover_filesystem ::
  "environment \<Rightarrow> vault_state \<Rightarrow> (error + unit) \<times> vault_state" where
  "recover_filesystem env s =
     (let s1 = backup_corrupted_filesystem env s
      in case newest_first (list_backups (disk s1)) of
           [] \<Rightarrow> create_default_filesystem env s1
         | latest # older \<Rightarrow>
             (case restore_from_backup env (snd latest) s1 of
                (Inl e, s2) \<Rightarrow> create_default_filesystem env s2
              | (Inr u, s2) \<Rightarrow> (Inr u, s2)))"

text \<open>
  \<open>_load_filesystem\<close>: a missing or empty tree file gives the default tree at once; the
  exception of the read goes to the first handler if it is a \<open>ValueError\<close> or a
  \<open>KeyError\<close>, and to the second, which makes the default tree, otherwise.
\<close>

definition load_filesystem ::
  "environment \<Rightarrow> vault_state \<Rightarrow> (error + unit) \<times> vault_state" where
  "load_filesystem env s =
     (case getsize filesystem_path (disk s) of
        Inl e \<Rightarrow> create_default_filesystem env s
      | Inr file_size \<Rightarrow>
          if file_size = 0 then create_default_filesystem env s
          else if is_ValueError read_operation \<or> read_operation = KeyError
          then recover_filesystem env s
          else create_default_filesystem env s)"

subsection \<open>Adding, extracting and verifying files\<close>

text \<open>
  \<open>SecureCryptoManager\<close> defines neither \<open>_create_secure_temp_file\<close> nor
  \<open>_secure_delete\<close>, which the core calls on it: the attribute lookup raises
  \<open>AttributeError\<close>.
\<close>

definition create_secure_temp_file :: "vault_state \<Rightarrow> (error + path) \<times> vault_state" where
  "create_secure_temp_file s = (Inl AttributeError, s)"

definition secure_delete :: "path \<Rightarrow> vault_state \<Rightarrow> (error + unit) \<times> vault_state" where
  "secure_delete p s = (Inl AttributeError, s)"

text \<open>The entry that \<open>_transactional_add_file\<close> makes for a file.\<close>

definition file_record ::
  "environment \<Rightarrow> string \<Rightarrow> path \<Rightarrow> path \<Rightarrow> string \<Rightarrow> nat \<Rightarrow> vault_state \<Rightarrow> sbyte json"
  where
  "file_record env file_id file_path vault_filename folder_id file_size s =
     JObj [(''id'', JStr (encode file_id)),
           (''original_name'', JStr (encode (basename file_path))),
           (''encrypted_name'', JStr (b64encode (encode (basename file_path)))),
           (''vault_filename'', JStr (encode vault_filename)),
           (''folder_id'', JStr (encode folder_id)),
           (''size'', JNum (int file_size)),
           (''added_at'', JStr (encode (isoformat env (time_now s)))),
           (''file_type'', JStr (encode (get_file_type env file_path))),
           (''hash'', (case calculate_file_hash file_path (disk s) of
                         None \<Rightarrow> JNull | Some h \<Rightarrow> JStr h))]"

text \<open>
  The update of the tree in \<open>_transactional_add_file\<close>:
  \<open>setdefault('files', {})\<close>, the new entry under the file id, and the file id appended to
  the children of the folder if the tree has the folder.
\<close>

fun jsetdefault :: "string \<Rightarrow> sbyte json \<Rightarrow> sbyte json \<Rightarrow> error + sbyte json" where
  "jsetdefault k v (JObj kvs) =
     Inr (JObj (if map_of kvs k = None then AList.update k v kvs else kvs))"
| "jsetdefault k v j = Inl TypeError"

definition set_file_record :: "string \<Rightarrow> sbyte json \<Rightarrow> sbyte json \<Rightarrow> error + sbyte json" where
  "set_file_record file_id entry tree =
     and_then (jsetdefault ''files'' (JObj []) tree) (\<lambda>tree1.
     and_then (jitem ''files'' tree1) (\<lambda>files.
     and_then (jset file_id entry files) (\<lambda>files1.
       jset ''files'' files1 tree1)))"

definition add_child :: "string \<Rightarrow> string \<Rightarrow> sbyte json \<Rightarrow> error + sbyte json" where
  "add_child folder_id file_id tree =
     and_then (jget ''folders'' (JObj []) tree) (\<lambda>folders.
     and_then (jcontains folder_id folders) (\<lambda>present.
       if \<not> present then Inr tree
       else
         and_then (jitem ''folders'' tree) (\<lambda>folders1.
         and_then (jitem folder_id folders1) (\<lambda>folder.
         and_then (jitem ''children'' folder) (\<lambda>children.
         and_then (jappend (JStr (encode file_id)) children) (\<lambda>children1.
         and_then (jset ''children'' children1 folder) (\<lambda>folder1.
         and_then (jset folder_id folder1 folders1) (\<lambda>folders2.
           jset ''folders'' folders2 tree))))))))"

text \<open>
  \<open>_transactional_add_file\<close>. When the update of the tree raises, the handler finds the
  new vault file and calls \<open>self.crypto._secure_delete\<close>.
\<close>

definition transactional_add_file ::
  "environment \<Rightarrow> path \<Rightarrow> string \<Rightarrow> vault_state \<Rightarrow> (error + string) \<times> vault_state" where
  "transactional_add_file env file_path folder_id s =
     (if folder_id \<noteq> ''root'' \<and> \<not> is_folder_unlocked env folder_id
      then (Inl (PermissionError 0), s)
      else if \<not> path_exists file_path (disk s) then (Inl FileNotFoundError, s)
      else
        (let folder_key = (if folder_id \<noteq> ''root'' then get_folder_key env folder_id else None);
             file_size = (case getsize file_path (disk s) of Inl e \<Rightarrow> 0 | Inr n \<Rightarrow> n)
         in case (if file_size > large_file_threshold
                  then encrypt_large_file env file_path folder_key s
                  else encrypt_file env file_path folder_key s) of
              (Inl e, s1) \<Rightarrow> (Inl e, s1)
            | (Inr (vault_filename, file_id), s1) \<Rightarrow>
                (let entry = file_record env file_id file_path vault_filename folder_id
                               file_size s1
                 in case set_file_record file_id entry (filesystem s1) of
                      Inl e \<Rightarrow>
                        (if path_exists vault_filename (disk s1)
                         then (Inl AttributeError, s1) else (Inl e, s1))
                    | Inr tree1 \<Rightarrow>
                        (case add_child folder_id file_id tree1 of
                           Inl e \<Rightarrow>
                             (if path_exists vault_filename (disk s1)
                              then (Inl AttributeError, s1\<lparr>filesystem := tree1\<rparr>)
                              else (Inl e, s1\<lparr>filesystem := tree1\<rparr>))
                         | Inr tree2 \<Rightarrow> (Inr file_id, s1\<lparr>filesystem := tree2\<rparr>)))))"

text \<open>
  \<open>_transactional_extract_file\<close>. The \<open>finally\<close> clause calls
  \<open>self.crypto._secure_delete\<close> when the temporary output is still there.
\<close>

definition extract_decrypted ::
  "environment \<Rightarrow> path \<Rightarrow> path \<Rightarrow> path \<Rightarrow> bytes option \<Rightarrow> sbyte json \<Rightarrow> vault_state \<Rightarrow>
   (error + path) \<times> vault_state" where
  "extract_decrypted env vault_path temp_output output_path folder_key file_data s =
     (let finish = (\<lambda>r s'. if path_exists temp_output (disk s')
                            then (Inl AttributeError, s') else (r, s'))
      in case decrypt_file env vault_path temp_output folder_key s of
           (Inl e, s1) \<Rightarrow> finish (Inl e) s1
         | (Inr u, s1) \<Rightarrow>
             (let extracted_hash = (case calculate_file_hash temp_output (disk s1) of
                                      None \<Rightarrow> JNull | Some h \<Rightarrow> JStr h)
              in case jitem ''hash'' file_data of
                   Inl e \<Rightarrow> finish (Inl e) s1
                 | Inr stored_hash \<Rightarrow>
                     if extracted_hash \<noteq> stored_hash then finish (Inl ValueError) s1
                     else
                       (case os_replace temp_output output_path (disk s1) of
                          Inl e \<Rightarrow> finish (Inl e) s1
                        | Inr d \<Rightarrow> (Inr output_path, s1\<lparr>disk := d\<rparr>))))"

text \<open>
  The folder id, the vault file name and the original name of an entry are used as strings
  (\<open>os.path.exists\<close>, \<open>os.path.join\<close>, the folder security manager); an entry that
  holds another JSON value there gives \<open>TypeError\<close>.
\<close>

definition transactional_extract_file ::
  "environment \<Rightarrow> string \<Rightarrow> path \<Rightarrow> vault_state \<Rightarrow> (error + path) \<times> vault_state" where
  "transactional_extract_file env file_id output_dir s =
     (case and_then (jget ''files'' (JObj []) (filesystem s)) (\<lambda>files.
           and_then (jcontains file_id files) (\<lambda>present.
             if \<not> present then Inl FileNotFoundError
             else
               and_then (jitem ''files'' (filesystem s)) (\<lambda>files1.
               and_then (jitem file_id files1) (\<lambda>file_data.
               and_then (jitem ''folder_id'' file_data) (\<lambda>folder.
               and_then (jpath folder) (\<lambda>folder_id.
                 if folder_id \<noteq> ''root'' \<and> \<not> is_folder_unlocked env folder_id
                 then Inl (PermissionError 0)
                 else
                   and_then (jitem ''vault_filename'' file_data) (\<lambda>vault_name.
                   and_then (jitem ''original_name'' file_data) (\<lambda>original_name.
                   and_then (jpath original_name) (\<lambda>name.
                   and_then (jpath vault_name) (\<lambda>vault_path.
                     if \<not> path_exists vault_path (disk s) then Inl FileNotFoundError
                     else Inr (file_data, folder_id, vault_path,
                               join output_dir name)))))))))))
      of
        Inl e \<Rightarrow> (Inl e, s)
      | Inr (file_data, folder_id, vault_path, output_path) \<Rightarrow>
          (let folder_key = (if folder_id \<noteq> ''root'' then get_folder_key env folder_id
                             else None)
           in case create_secure_temp_file s of
                (Inl e, s1) \<Rightarrow> (Inl e, s1)
              | (Inr temp_output, s1) \<Rightarrow>
                  extract_decrypted env vault_path temp_output output_path folder_key
                    file_data s1))"

text \<open>
  \<open>verify_integrity\<close>: the issues it reports, by the file or folder concerned. Every
  exception of the check of a file is reported as an issue of that file; an exception
  outside it (a tree or an entry that is not a \<open>dict\<close>) is raised.
\<close>

datatype issue =
    EncryptedFileNotFound string
  | HashMismatch string
  | CheckFailed string error
  | ParentMissing string

text \<open>Python's truth value of a JSON value.\<close>

fun truthy :: "sbyte json \<Rightarrow> bool" where
  "truthy JNull = False"
| "truthy (JBool b) = b"
| "truthy (JNum n) = (n \<noteq> 0)"
| "truthy (JStr s) = (s \<noteq> [])"
| "truthy (JArr xs) = (xs \<noteq> [])"
| "truthy (JObj kvs) = (kvs \<noteq> [])"

text \<open>\<open>d.items()\<close>\<close>

fun jitems :: "sbyte json \<Rightarrow> error + (string \<times> sbyte json) list" where
  "jitems (JObj kvs) = Inr kvs"
| "jitems j = Inl TypeError"

text \<open>The body of the \<open>try\<close> block for one file, and its handler.\<close>

definition check_hash ::
  "environment \<Rightarrow> string \<Rightarrow> sbyte json \<Rightarrow> path \<Rightarrow> vault_state \<Rightarrow>
   issue list \<times> vault_state" where
  "check_hash env file_id file_data vault_path s =
     (case create_secure_temp_file s of
        (Inl e, s1) \<Rightarrow> ([CheckFailed file_id e], s1)
      | (Inr temp_file, s1) \<Rightarrow>
          (case decrypt_file env vault_path temp_file None s1 of
             (Inl e, s2) \<Rightarrow> ([CheckFailed file_id e], s2)
           | (Inr u, s2) \<Rightarrow>
               (let current_hash = (case calculate_file_hash temp_file (disk s2) of
                                      None \<Rightarrow> JNull | Some h \<Rightarrow> JStr h);
                    found = (if jget ''hash'' JNull file_data = Inr current_hash
                             then [] else [HashMismatch file_id])
                in if path_exists temp_file (disk s2)
                   then (found @ [CheckFailed file_id AttributeError], s2)
                   else (found, s2))))"

definition check_file ::
  "environment \<Rightarrow> string \<Rightarrow> sbyte json \<Rightarrow> vault_state \<Rightarrow>
   (error + issue list) \<times> vault_state" where
  "check_file env file_id file_data s =
     (case jget ''vault_filename'' JNull file_data of
        Inl e \<Rightarrow> (Inl e, s)
      | Inr vault_name \<Rightarrow>
          if \<not> truthy vault_name then (Inr [EncryptedFileNotFound file_id], s)
          else
            (case jpath vault_name of
               Inl e \<Rightarrow> (Inl e, s)
             | Inr vault_path \<Rightarrow>
                 if \<not> path_exists vault_path (disk s)
                 then (Inr [EncryptedFileNotFound file_id], s)
                 else (case check_hash env file_id file_data vault_path s of
                         (issues, s1) \<Rightarrow> (Inr issues, s1))))"

fun check_files ::
  "environment \<Rightarrow> (string \<times> sbyte json) list \<Rightarrow> vault_state \<Rightarrow>
   (error + issue list) \<times> vault_state" where
  "check_files env [] s = (Inr [], s)"
| "check_files env ((file_id, file_data) # rest) s =
     (case check_file env file_id file_data s of
        (Inl e, s1) \<Rightarrow> (Inl e, s1)
      | (Inr issues, s1) \<Rightarrow>
          (case check_files env rest s1 of
             (Inl e, s2) \<Rightarrow> (Inl e, s2)
           | (Inr others, s2) \<Rightarrow> (Inr (issues @ others), s2)))"

fun check_folders :: "(string \<times> sbyte json) list \<Rightarrow> error + issue list" where
  "check_folders [] = Inr []"
| "check_folders ((folder_id, folder_data) # rest) =
     (if folder_id \<noteq> ''root''
      then and_then (jget ''parent'' JNull folder_data) (\<lambda>parent.
           and_then (check_folders rest) (\<lambda>others.
             Inr ((if truthy parent then [] else [ParentMissing folder_id]) @ others)))
      else check_folders rest)"

definition verify_integrity ::
  "environment \<Rightarrow> vault_state \<Rightarrow> (error + issue list) \<times> vault_state" where
  "verify_integrity env s =
     (case and_then (jget ''files'' (JObj []) (filesystem s)) jitems of
        Inl e \<Rightarrow> (Inl e, s)
      | Inr files \<Rightarrow>
          (case check_files env files s of
             (Inl e, s1) \<Rightarrow> (Inl e, s1)
           | (Inr issues, s1) \<Rightarrow>
               (case and_then (and_then (jget ''folders'' (JObj []) (filesystem s1)) jitems)
                       check_folders of
                  Inl e \<Rightarrow> (Inl e, s1)
                | Inr others \<Rightarrow> (Inr (issues @ others), s1))))"

section \<open>Transactions (\<open>vault_core.VaultTransaction\<close>)\<close>

datatype operation =
    AddFile path string
  | CreateFolder string string "string option" "string option" "string option"
  | DeleteFile string

datatype transaction_state = Initialized | Executing | RollingBack | Committed | Failed

record transaction =
  operations :: "(string \<times> operation) list"
  state :: transaction_state
  backup_files :: "path list"

definition begin_transaction :: transaction where
  "begin_transaction = \<lparr>operations = [], state = Initialized, backup_files = []\<rparr>"

text \<open>
  Staging an operation (\<open>add_file\<close>, \<open>create_folder\<close>, \<open>delete_file\<close> of the
  transaction): it gets an id with a random suffix and is appended to the list.
\<close>

definition stage ::
  "environment \<Rightarrow> string \<Rightarrow> operation \<Rightarrow> transaction \<Rightarrow> vault_state \<Rightarrow>
   (error + string) \<times> transaction \<times> vault_state" where
  "stage env kind operation tx s =
     (if state tx \<noteq> Initialized then (Inl RuntimeError, tx, s)
      else
        (let operation_id = kind @ ''_'' @ token_hex env (draws s)
         in (Inr operation_id,
             tx\<lparr>operations := operations tx @ [(operation_id, operation)]\<rparr>,
             s\<lparr>draws := draws s + 1\<rparr>)))"

definition tx_add_file ::
  "environment \<Rightarrow> path \<Rightarrow> string \<Rightarrow> transaction \<Rightarrow> vault_state \<Rightarrow>
   (error + string) \<times> transaction \<times> vault_state" where
  "tx_add_file env file_path folder_id = stage env ''add_file'' (AddFile file_path folder_id)"

definition tx_create_folder ::
  "environment \<Rightarrow> string \<Rightarrow> string \<Rightarrow> string option \<Rightarrow> string option \<Rightarrow> string option \<Rightarrow>
   transaction \<Rightarrow> vault_state \<Rightarrow> (error + string) \<times> transaction \<times> vault_state" where
  "tx_create_folder env name parent_id password hint recovery_password =
     stage env ''create_folder'' (CreateFolder name parent_id password hint recovery_password)"

definition tx_delete_file ::
  "environment \<Rightarrow> string \<Rightarrow> transaction \<Rightarrow> vault_state \<Rightarrow>
   (error + string) \<times> transaction \<times> vault_state" where
  "tx_delete_file env file_id = stage env ''delete_file'' (DeleteFile file_id)"

text \<open>
  \<open>_execute_operation\<close>. \<open>SecureVaultCore\<close> defines neither
  \<open>_transactional_create_folder\<close> nor \<open>_transactional_delete_file\<close>.
\<close>

definition execute_operation ::
  "environment \<Rightarrow> operation \<Rightarrow> vault_state \<Rightarrow> (error + string) \<times> vault_state" where
  "execute_operation env operation s =
     (case operation of
        AddFile file_path folder_id \<Rightarrow> transactional_add_file env file_path folder_id s
      | CreateFolder name parent_id password hint recovery_password \<Rightarrow> (Inl AttributeError, s)
      | DeleteFile file_id \<Rightarrow> (Inl AttributeError, s))"

text \<open>
  \<open>_create_backup\<close>: the JSON text of the tree in memory, encrypted under the master key,
  is written to a new file in \<open>data/backups\<close>, whose path the transaction keeps.
\<close>

definition create_backup ::
  "environment \<Rightarrow> transaction \<Rightarrow> vault_state \<Rightarrow> (error + unit) \<times> transaction \<times> vault_state"
  where
  "create_backup env tx s =
     (let backup_name = ''transaction_backup_'' @ strftime_f env (time_now s) @ ''_'' @
                        token_hex env (draws s) @ ''.json.enc'';
          backup_path = join backups_dir backup_name;
          s1 = s\<lparr>draws := draws s + 1\<rparr>
      in case encrypt_data (json_dumps (filesystem s1)) s1 of
           (Inl e, s2) \<Rightarrow> (Inl e, tx, s2)
         | (Inr encrypted_data, s2) \<Rightarrow>
             (Inr (),
              tx\<lparr>backup_files := backup_files tx @ [backup_path]\<rparr>,
              s2\<lparr>disk := write_bytes (time_now s2) backup_path encrypted_data (disk s2)\<rparr>))"

text \<open>
  \<open>_rollback\<close>: restore the tree from the last backup of the transaction, then remove
  the backups of the transaction. An exception of the restoring is logged and ends the
  rollback, before the backups are removed.
\<close>

definition rollback :: "environment \<Rightarrow> transaction \<Rightarrow> vault_state \<Rightarrow> vault_state" where
  "rollback env tx s =
     (if backup_files tx = [] then s
      else case restore_from_backup env (last (backup_files tx)) s of
             (Inl e, s1) \<Rightarrow> s1
           | (Inr u, s1) \<Rightarrow>
               s1\<lparr>disk := foldl (\<lambda>d backup. AList.delete backup d) (disk s1)
                              (backup_files tx)\<rparr>)"

text \<open>
  \<open>commit\<close>: the loop over the staged operations, with the results so far; the first
  exception rolls back and is raised inside a \<open>TransactionError\<close>.
\<close>

fun execute_all ::
  "environment \<Rightarrow> (string \<times> operation) list \<Rightarrow> (string \<times> string) list \<Rightarrow> transaction \<Rightarrow>
   vault_state \<Rightarrow> (error + (string \<times> string) list) \<times> transaction \<times> vault_state" where
  "execute_all env [] results tx s = (Inr results, tx\<lparr>state := Committed\<rparr>, s)"
| "execute_all env ((operation_id, operation) # rest) results tx s =
     (case execute_operation env operation s of
        (Inl e, s1) \<Rightarrow>
          (Inl (TransactionError e), tx\<lparr>state := Failed\<rparr>,
           rollback env (tx\<lparr>state := RollingBack\<rparr>) s1)
      | (Inr result, s1) \<Rightarrow>
          execute_all env rest (AList.update operation_id result results) tx s1)"

definition commit ::
  "environment \<Rightarrow> transaction \<Rightarrow> vault_state \<Rightarrow>
   (error + (string \<times> string) list) \<times> transaction \<times> vault_state" where
  "commit env tx s =
     (if state tx \<noteq> Initialized then (Inl RuntimeError, tx, s)
      else case create_backup env (tx\<lparr>state := Executing\<rparr>) s of
             (Inl e, tx1, s1) \<Rightarrow> (Inl e, tx1\<lparr>state := Failed\<rparr>, s1)
           | (Inr u, tx1, s1) \<Rightarrow> execute_all env (operations tx1) [] tx1 s1)"

section \<open>Properties of the tree and of transactions\<close>

lemma json_loads_json_dumps [simp]: "json_loads env (json_dumps j) = Inr j"
  by (simp add: json_loads_def json_dumps_def upt_conv_Cons del: upt_Suc)

text \<open>
  A backup written by \<open>_create_backup\<close> holds the text of the tree itself, which
  \<open>_restore_from_backup\<close> reads as a payload: a tree without the key \<open>data\<close> is not
  restored, and the rollback ends there.
\<close>

lemma rollback_not_restored:
  assumes "backup_files tx \<noteq> []"
    and "read_bytes (last (backup_files tx)) (disk s) = Inr (fernet_token k (json_dumps tree))"
    and "jitem ''data'' tree = Inl e"
    and "secure_key s = Some k" "valid_key k" "key_usage_count s < max_usage_before_rekey"
  shows "rollback env tx s = s\<lparr>key_usage_count := key_usage_count s + 1\<rparr>"
  using assms
  by (simp add: rollback_def restore_from_backup_def decrypt_data_ok [where k = k]
        decode_backup_def)

section \<open>Claims on transactions\<close>

text \<open>
  The number of files of the tree, \<open>len(filesystem['files'])\<close>.
\<close>

definition file_count :: "sbyte json \<Rightarrow> error + nat" where
  "file_count tree = and_then (and_then (jitem ''files'' tree) jitems) (\<lambda>files. Inr (length files))"

text \<open>
  A vault with the default tree and the files \<open>a.txt\<close> and \<open>c.txt\<close>, and a transaction
  in which three additions are staged: \<open>a.txt\<close>, the missing \<open>b.txt\<close>, and \<open>c.txt\<close>.
\<close>

definition demo_tree :: "sbyte json" where
  "demo_tree = default_filesystem demo_env 0"

definition demo_two_files :: vault_state where
  "demo_two_files =
     demo_vault [(''a.txt'', \<lparr>content = encode ''alpha'', mtime = 0\<rparr>),
                 (''c.txt'', \<lparr>content = encode ''gamma'', mtime = 0\<rparr>)] demo_tree"

definition demo_staged1 :: "transaction \<times> vault_state" where
  "demo_staged1 = snd (tx_add_file demo_env ''a.txt'' ''root'' begin_transaction demo_two_files)"

definition demo_staged2 :: "transaction \<times> vault_state" where
  "demo_staged2 =
     snd (tx_add_file demo_env ''b.txt'' ''root'' (fst demo_staged1) (snd demo_staged1))"

definition demo_staged3 :: "transaction \<times> vault_state" where
  "demo_staged3 =
     snd (tx_add_file demo_env ''c.txt'' ''root'' (fst demo_staged2) (snd demo_staged2))"

lemma demo_digit_Suc [simp]: "demo_digit (Suc (Suc 0)) = ''2''"
  by (simp add: demo_digit_def)

lemma demo_staged3_eq:
  "demo_staged3 =
     (\<lparr>operations = [(''add_file_f0'', AddFile ''a.txt'' ''root''),
                     (''add_file_f1'', AddFile ''b.txt'' ''root''),
                     (''add_file_f2'', AddFile ''c.txt'' ''root'')],
       state = Initialized, backup_files = []\<rparr>,
      demo_two_files\<lparr>draws := 3\<rparr>)"
  by (simp add: demo_staged3_def demo_staged2_def demo_staged1_def tx_add_file_def stage_def
        begin_transaction_def Let_def demo_two_files_def)

definition demo_backup_path :: path where
  "demo_backup_path = ''data/backups/transaction_backup_20240101_000000_000000_f3.json.enc''"

definition demo_tree_a :: "sbyte json" where
  "demo_tree_a =
     JObj [(''files'',
            JObj [(''f5'',
                   JObj [(''id'', JStr (encode ''f5'')),
                         (''original_name'', JStr (encode ''a.txt'')),
                         (''encrypted_name'', JStr (b64encode (encode ''a.txt''))),
                         (''vault_filename'', JStr (encode ''data/encrypted_files/f5.myarc'')),
                         (''folder_id'', JStr (encode ''root'')),
                         (''size'', JNum 5),
                         (''added_at'', JStr (encode ''2024-01-01T00:00:00'')),
                         (''file_type'', JStr (encode ''binary'')),
                         (''hash'', JStr (sha256_hexdigest (encode ''alpha'')))])]),
           (''folders'',
            JObj [(''root'',
                   JObj [(''id'', JStr (encode ''root'')),
                         (''name'', JStr root_folder_name),
                         (''encrypted_name'', JStr (b64encode root_folder_name)),
                         (''parent'', JNull),
                         (''children'', JArr [JStr (encode ''f5'')]),
                         (''created_at'', JStr (encode ''2024-01-01T00:00:00'')),
                         (''is_locked'', JBool False)])]),
           (''version'', JStr (encode ''2.0'')),
           (''created_at'', JStr (encode ''2024-01-01T00:00:00''))]"

definition demo_disk_a :: disk where
  "demo_disk_a =
     [(''a.txt'', \<lparr>content = encode ''alpha'', mtime = 0\<rparr>),
      (''c.txt'', \<lparr>content = encode ''gamma'', mtime = 0\<rparr>),
      (demo_backup_path,
       \<lparr>content = fernet_token (demo_key CHR ''M'') (json_dumps demo_tree), mtime = 0\<rparr>),
      (''data/encrypted_files/f5.myarc'',
       \<lparr>content = to_bytes4 140 @ fernet_token (demo_key CHR ''M'') (demo_key CHR ''F'') @
                   fernet_token (demo_key CHR ''F'') (encode ''alpha''),
        mtime = 0\<rparr>)]"

lemma demo_create_backup:
  "create_backup demo_env
     \<lparr>operations = ops, state = Executing, backup_files = []\<rparr> (demo_two_files\<lparr>draws := 3\<rparr>) =
   (Inr (),
    \<lparr>operations = ops, state = Executing, backup_files = [demo_backup_path]\<rparr>,
    \<lparr>disk = [(''a.txt'', \<lparr>content = encode ''alpha'', mtime = 0\<rparr>),
             (''c.txt'', \<lparr>content = encode ''gamma'', mtime = 0\<rparr>),
             (demo_backup_path,
              \<lparr>content = fernet_token (demo_key CHR ''M'') (json_dumps demo_tree),
               mtime = 0\<rparr>)],
     time_now = 0, secure_key = Some (demo_key CHR ''M''), key_usage_count = Suc 0, draws = 4,
     filesystem = demo_tree\<rparr>)"
  by (simp add: create_backup_def Let_def demo_two_files_def join_def backups_dir_def
      encrypt_data_ok [where k = "demo_key CHR ''M''"] max_usage_before_rekey_def demo_vault_def
      demo_backup_path_def write_bytes_def)

lemma demo_add_a:
  "transactional_add_file demo_env ''a.txt'' ''root''
     \<lparr>disk = [(''a.txt'', \<lparr>content = encode ''alpha'', mtime = 0\<rparr>),
              (''c.txt'', \<lparr>content = encode ''gamma'', mtime = 0\<rparr>),
              (demo_backup_path,
               \<lparr>content = fernet_token (demo_key CHR ''M'') (json_dumps demo_tree),
                mtime = 0\<rparr>)],
      time_now = 0, secure_key = Some (demo_key CHR ''M''), key_usage_count = Suc 0, draws = 4,
      filesystem = demo_tree\<rparr> =
   (Inr ''f5'',
    \<lparr>disk = demo_disk_a, time_now = 0, secure_key = Some (demo_key CHR ''M''),
     key_usage_count = 2, draws = 6, filesystem = demo_tree_a\<rparr>)"
  by (simp add: transactional_add_file_def Let_def path_exists_def getsize_def
      large_file_threshold_def encode_def
      encrypt_file_single_shot [where k = "demo_key CHR ''M''" and data = "map Lit ''alpha''"]
      read_bytes_def max_usage_before_rekey_def vault_file_name_def
      file_record_def calculate_file_hash_def basename_def write_bytes_def
      set_file_record_def add_child_def demo_tree_def default_filesystem_def
      demo_tree_a_def demo_disk_a_def demo_backup_path_def)

lemma demo_add_b:
  "transactional_add_file demo_env ''b.txt'' ''root''
     \<lparr>disk = demo_disk_a, time_now = 0, secure_key = Some (demo_key CHR ''M''),
      key_usage_count = 2, draws = 6, filesystem = demo_tree_a\<rparr> =
   (Inl FileNotFoundError,
    \<lparr>disk = demo_disk_a, time_now = 0, secure_key = Some (demo_key CHR ''M''),
     key_usage_count = 2, draws = 6, filesystem = demo_tree_a\<rparr>)"
  by (simp add: transactional_add_file_def path_exists_def demo_disk_a_def demo_backup_path_def)

lemma demo_rollback:
  "rollback demo_env
     \<lparr>operations = ops, state = RollingBack, backup_files = [demo_backup_path]\<rparr>
     \<lparr>disk = demo_disk_a, time_now = 0, secure_key = Some (demo_key CHR ''M''),
      key_usage_count = 2, draws = 6, filesystem = demo_tree_a\<rparr> =
   \<lparr>disk = demo_disk_a, time_now = 0, secure_key = Some (demo_key CHR ''M''),
    key_usage_count = 3, draws = 6, filesystem = demo_tree_a\<rparr>"
  by (subst rollback_not_restored
        [where k = "demo_key CHR ''M''" and tree = demo_tree and e = KeyError])
     (simp_all add: read_bytes_def demo_disk_a_def demo_backup_path_def
        max_usage_before_rekey_def demo_tree_def default_filesystem_def)

lemma demo_commit:
  "commit demo_env (fst demo_staged3) (snd demo_staged3) =
   (Inl (TransactionError FileNotFoundError),
    \<lparr>operations = [(''add_file_f0'', AddFile ''a.txt'' ''root''),
                    (''add_file_f1'', AddFile ''b.txt'' ''root''),
                    (''add_file_f2'', AddFile ''c.txt'' ''root'')],
      state = Failed, backup_files = [demo_backup_path]\<rparr>,
    \<lparr>disk = demo_disk_a, time_now = 0, secure_key = Some (demo_key CHR ''M''),
     key_usage_count = 3, draws = 6, filesystem = demo_tree_a\<rparr>)"
  by (simp add: demo_staged3_eq commit_def demo_create_backup execute_operation_def
        demo_add_a demo_add_b demo_rollback)

text \<open>
  Claim C3. In a transaction whose second of three additions names a missing file,
  \<open>commit\<close> raises the \<open>TransactionError\<close> of the \<open>FileNotFoundError\<close> and ends
  in the failed state, but the tree and the backups are not as before \<open>commit\<close>: the tree
  had no file and the backup directory was empty, and afterwards the tree has the file added
  by the first addition and the backup directory has the backup of the transaction. The
  rollback reads that backup, which holds the text of the tree, as a payload with data and
  checksum, and so ends with \<open>KeyError\<close>, which it logs.
\<close>

theorem failed_commit_not_rolled_back:
  "state (fst demo_staged3) = Initialized \<and>
   map snd (operations (fst demo_staged3)) =
     [AddFile ''a.txt'' ''root'', AddFile ''b.txt'' ''root'', AddFile ''c.txt'' ''root''] \<and>
   path_exists ''a.txt'' (disk (snd demo_staged3)) \<and>
   \<not> path_exists ''b.txt'' (disk (snd demo_staged3)) \<and>
   path_exists ''c.txt'' (disk (snd demo_staged3)) \<and>
   file_count (filesystem (snd demo_staged3)) = Inr 0 \<and>
   listdir backups_dir (disk (snd demo_staged3)) = [] \<and>
   fst (commit demo_env (fst demo_staged3) (snd demo_staged3)) =
     Inl (TransactionError FileNotFoundError) \<and>
   state (fst (snd (commit demo_env (fst demo_staged3) (snd demo_staged3)))) = Failed \<and>
   file_count (filesystem (snd (snd (commit demo_env (fst demo_staged3) (snd demo_staged3))))) =
     Inr 1 \<and>
   listdir backups_dir (disk (snd (snd (commit demo_env (fst demo_staged3) (snd demo_staged3))))) =
     [''transaction_backup_20240101_000000_000000_f3.json.enc''] \<and>
   restore_from_backup demo_env demo_backup_path
     (snd (snd (commit demo_env (fst demo_staged3) (snd demo_staged3)))) =
     (Inl KeyError,
      snd (snd (commit demo_env (fst demo_staged3) (snd demo_staged3)))\<lparr>key_usage_count := 4\<rparr>)"
proof -
  have a: "file_count demo_tree = Inr 0" "file_count demo_tree_a = Inr 1"
    by (simp_all add: file_count_def demo_tree_def default_filesystem_def demo_tree_a_def)
  have b: "listdir backups_dir (disk (demo_two_files\<lparr>draws := 3\<rparr>)) = []"
    "listdir backups_dir demo_disk_a = [''transaction_backup_20240101_000000_000000_f3.json.enc'']"
    by (simp_all add: listdir_def backups_dir_def demo_two_files_def demo_disk_a_def
          demo_backup_path_def)
  have c: "path_exists ''a.txt'' (disk (demo_two_files\<lparr>draws := 3\<rparr>))"
    "\<not> path_exists ''b.txt'' (disk (demo_two_files\<lparr>draws := 3\<rparr>))"
    "path_exists ''c.txt'' (disk (demo_two_files\<lparr>draws := 3\<rparr>))"
    by (simp_all add: path_exists_def demo_two_files_def)
  have d: "restore_from_backup demo_env demo_backup_path
     \<lparr>disk = demo_disk_a, time_now = 0, secure_key = Some (demo_key CHR ''M''),
      key_usage_count = 3, draws = 6, filesystem = demo_tree_a\<rparr> =
     (Inl KeyError,
      \<lparr>disk = demo_disk_a, time_now = 0, secure_key = Some (demo_key CHR ''M''),
       key_usage_count = 4, draws = 6, filesystem = demo_tree_a\<rparr>)"
    by (simp add: restore_from_backup_def read_bytes_def demo_disk_a_def demo_backup_path_def
          decrypt_data_ok [where k = "demo_key CHR ''M''"] max_usage_before_rekey_def
          decode_backup_def demo_tree_def default_filesystem_def)
  show ?thesis
    using a b c d by (simp add: demo_commit) (simp add: demo_staged3_eq demo_two_files_def)
qed

end
